theory Spec2Isabelle
  imports Complex_Main "HOL-Library.Sublist"
begin

section \<open>Python exceptions\<close>

text \<open>
  The exceptions the modelled functions can raise. An exception of an external service
  (botocore's ClientError and its relatives) carries the text that \<^verbatim>\<open>str(e)\<close> gives.
\<close>

datatype exn = ZeroDivisionError | KeyError string | IndexError | TypeError | ServiceError string

text \<open>
  Python's true division \<^verbatim>\<open>a / b\<close>: it raises ZeroDivisionError on a zero divisor, for
  ints and for floats alike. Costs are Python floats; they are modelled as exact
  rationals, which keeps the zero test and the raise and leaves rounding out.
\<close>

definition py_truediv :: "rat \<Rightarrow> rat \<Rightarrow> exn + rat" where
  "py_truediv a b = (if b = 0 then Inl ZeroDivisionError else Inr (a / b))"

section \<open>Cost analyzer: \<^verbatim>\<open>detect_anomalies\<close>\<close>

text \<open>
  An entry of \<^verbatim>\<open>cost_data['daily_costs']\<close> is \<^verbatim>\<open>{'date': ..., 'cost': ...}\<close>; an anomaly
  has the same two keys and three more.
\<close>

record daily_cost =
  date :: string
  cost :: rat

record anomaly = daily_cost +
  baseline :: rat
  deviation_percentage :: rat
  severity :: string

text \<open>
  \<^verbatim>\<open>baseline_costs = [d['cost'] for d in daily_costs[:-7]]\<close> and
  \<^verbatim>\<open>baseline_avg = sum(baseline_costs) / len(baseline_costs)\<close>.
  The slice \<^verbatim>\<open>[:-7]\<close> drops the last seven entries (all of them when there are fewer).
\<close>

definition baseline_costs :: "daily_cost list \<Rightarrow> rat list" where
  "baseline_costs daily_costs = map cost (take (length daily_costs - 7) daily_costs)"

definition baseline_avg :: "daily_cost list \<Rightarrow> exn + rat" where
  "baseline_avg daily_costs =
     py_truediv (sum_list (baseline_costs daily_costs))
       (of_nat (length (baseline_costs daily_costs)))"

text \<open>
  \<^verbatim>\<open>save_anomaly\<close> puts one item into the anomalies table. The table is the list of the
  anomalies written so far; \<open>put\<close> says whether the write of an anomaly raises.
  The loop over \<^verbatim>\<open>daily_costs[-7:]\<close> carries the list \<^verbatim>\<open>anomalies\<close> and the table.
\<close>

fun check_days ::
  "(anomaly \<Rightarrow> exn option) \<Rightarrow> rat \<Rightarrow> rat \<Rightarrow> daily_cost list \<Rightarrow>
     anomaly list \<Rightarrow> anomaly list \<Rightarrow> (exn + anomaly list) \<times> anomaly list" where
  "check_days put threshold b [] anomalies table = (Inr anomalies, table)"
| "check_days put threshold b (day # days) anomalies table =
     (case py_truediv (cost day - b) b of
        Inl e \<Rightarrow> (Inl e, table)
      | Inr q \<Rightarrow>
          (let deviation = q * 100 in
           if \<bar>deviation\<bar> > threshold then
             (let a = \<lparr>date = date day, cost = cost day, baseline = b,
                        deviation_percentage = deviation,
                        severity = (if \<bar>deviation\<bar> > 50 then ''high'' else ''medium'')\<rparr>
              in case put a of
                   Some e \<Rightarrow> (Inl e, table)
                 | None \<Rightarrow> check_days put threshold b days (anomalies @ [a]) (table @ [a]))
           else check_days put threshold b days anomalies table))"

definition detect_anomalies ::
  "(anomaly \<Rightarrow> exn option) \<Rightarrow> rat \<Rightarrow> daily_cost list \<Rightarrow> anomaly list \<Rightarrow>
     (exn + anomaly list) \<times> anomaly list" where
  "detect_anomalies put threshold daily_costs table =
     (if length daily_costs < 7 then (Inr [], table)
      else case baseline_avg daily_costs of
             Inl e \<Rightarrow> (Inl e, table)
           | Inr b \<Rightarrow>
               check_days put threshold b
                 (drop (length daily_costs - 7) daily_costs) [] table)"

text \<open>A day of the series with a given cost.\<close>

definition day_of :: "rat \<Rightarrow> daily_cost" where
  "day_of c = \<lparr>date = ''2024-01-01'', cost = c\<rparr>"

section \<open>Cleanup executor: the external services\<close>

text \<open>
  An attribute value of a table item: a string, a number or a map.
\<close>

datatype attr = AttrS string | AttrN rat | AttrM "(string \<times> attr) list"

type_synonym item = "string \<Rightarrow> attr option"

text \<open>
  The calls the executor makes on the compute service, the load-balancer service and
  the actions table, with their arguments: \<^verbatim>\<open>ec2.stop_instances\<close>,
  \<^verbatim>\<open>ec2.describe_instances\<close>, \<^verbatim>\<open>ec2.create_snapshot\<close> (volume, description), the
  waiter \<^verbatim>\<open>snapshot_completed\<close>, \<^verbatim>\<open>ec2.terminate_instances\<close>, \<^verbatim>\<open>ec2.delete_volume\<close>,
  \<^verbatim>\<open>ec2.release_address\<close>, \<^verbatim>\<open>ec2.delete_snapshot\<close>, \<^verbatim>\<open>ec2.deregister_image\<close>,
  \<^verbatim>\<open>elbv2.delete_load_balancer\<close> and \<^verbatim>\<open>table.update_item\<close> (action id, scheduled date,
  then the values of status, executed\_at and result\_message).
\<close>

datatype call =
    StopInstances string
  | DescribeInstances string
  | CreateSnapshot string string
  | WaitSnapshotCompleted string
  | TerminateInstances string
  | DeleteVolume string
  | ReleaseAddress string
  | DeleteSnapshot string
  | DeregisterImage string
  | DeleteLoadBalancer string
  | UpdateItem string string string string string

text \<open>The calls that stop, terminate, delete, release or deregister a resource.\<close>

fun destructive :: "call \<Rightarrow> bool" where
  "destructive (StopInstances i) = True"
| "destructive (TerminateInstances i) = True"
| "destructive (DeleteVolume v) = True"
| "destructive (ReleaseAddress a) = True"
| "destructive (DeleteSnapshot s) = True"
| "destructive (DeregisterImage a) = True"
| "destructive (DeleteLoadBalancer l) = True"
| "destructive (DescribeInstances i) = False"
| "destructive (CreateSnapshot v d) = False"
| "destructive (WaitSnapshotCompleted s) = False"
| "destructive (UpdateItem a d s t m) = False"

text \<open>
  The world the executor acts on: the calls made so far, in order; the actions table,
  keyed by (action\_id, scheduled\_date); and how often the clock has been read.
\<close>

record world =
  calls :: "call list"
  actions_table :: "string \<times> string \<Rightarrow> item option"
  clock_reads :: nat

text \<open>
  A block device mapping of a described instance is \<open>Some volume_id\<close> when it has the
  key \<^verbatim>\<open>'Ebs'\<close>, and \<open>None\<close> otherwise; an instance is described by its mappings
  (\<^verbatim>\<open>instance.get('BlockDeviceMappings', [])\<close>).

  The services answer a call knowing the calls made before it: \<open>fails\<close> is \<open>Some text\<close>
  when the call raises an exception \<open>e\<close> with \<^verbatim>\<open>str(e) = text\<close>; \<open>described\<close> is
  \<^verbatim>\<open>response['Reservations']\<close>, a list of reservations, each the list of its instances;
  \<open>created_snapshot\<close> is \<^verbatim>\<open>snapshot_response['SnapshotId']\<close>; \<open>clock n\<close> is what
  \<^verbatim>\<open>datetime.now().isoformat()\<close> returns at the read number \<open>n\<close>.
\<close>

type_synonym block_device_mapping = "string option"

record services =
  fails :: "call list \<Rightarrow> call \<Rightarrow> string option"
  described :: "call list \<Rightarrow> string \<Rightarrow> block_device_mapping list list list"
  created_snapshot :: "call list \<Rightarrow> string \<Rightarrow> string"
  clock :: "nat \<Rightarrow> string"

definition invoke :: "services \<Rightarrow> call \<Rightarrow> world \<Rightarrow> string option \<times> world" where
  "invoke sv c w = (fails sv (calls w) c, w\<lparr>calls := calls w @ [c]\<rparr>)"

text \<open>
  \<^verbatim>\<open>table.update_item\<close> with \<^verbatim>\<open>SET #status = :status, executed_at = :executed,
  result_message = :message\<close>: the three attributes of the item under the key are set
  and its other attributes stay; a key with no item gets an item of the key and the
  three attributes.
\<close>

definition update_item ::
  "(string \<times> string \<Rightarrow> item option) \<Rightarrow> string \<times> string \<Rightarrow> string \<Rightarrow> string \<Rightarrow> string \<Rightarrow>
     (string \<times> string \<Rightarrow> item option)" where
  "update_item tbl key status executed msg =
     (let old = (case tbl key of
                   None \<Rightarrow> [''action_id'' \<mapsto> AttrS (fst key), ''scheduled_date'' \<mapsto> AttrS (snd key)]
                 | Some it \<Rightarrow> it)
      in tbl(key \<mapsto> old(''status'' \<mapsto> AttrS status, ''executed_at'' \<mapsto> AttrS executed,
                           ''result_message'' \<mapsto> AttrS msg)))"

definition stored :: "world \<Rightarrow> string \<times> string \<Rightarrow> string \<Rightarrow> attr option" where
  "stored w key field = (case actions_table w key of None \<Rightarrow> None | Some it \<Rightarrow> it field)"

section \<open>Cleanup executor: actions and results\<close>

record action_key =
  action_id :: string
  resource_id :: string
  resource_type :: string
  action_type :: string

record action = action_key +
  estimated_savings :: "rat option"

record result = action_key +
  success :: bool
  skipped :: bool
  message :: string
  savings :: rat

text \<open>\<^verbatim>\<open>str.split(sep)\<close> for a separator of one character, and \<^verbatim>\<open>sep.join(parts)\<close>.\<close>

fun split_on :: "char \<Rightarrow> string \<Rightarrow> string list" where
  "split_on c [] = [[]]"
| "split_on c (x # xs) =
     (if x = c then [] # split_on c xs
      else (case split_on c xs of
              [] \<Rightarrow> [[x]]
            | p # ps \<Rightarrow> (x # p) # ps))"

fun join_with :: "string \<Rightarrow> string list \<Rightarrow> string" where
  "join_with sep [] = []"
| "join_with sep [p] = p"
| "join_with sep (p # q # ps) = p @ sep @ join_with sep (q # ps)"

text \<open>
  The parameter \<^verbatim>\<open>action_id\<close> of \<^verbatim>\<open>update_action_status\<close> is written \<open>aid\<close>, the record
  field having the name.
\<close>

definition scheduled_date_of :: "string \<Rightarrow> string" where
  "scheduled_date_of aid = join_with ''-'' (take 3 (split_on CHR ''-'' aid))"

definition status_of :: "result \<Rightarrow> string" where
  "status_of result =
     (let status = (if success result then ''completed'' else ''failed'')
      in if skipped result then ''skipped'' else status)"

definition update_action_status ::
  "services \<Rightarrow> string \<Rightarrow> result \<Rightarrow> world \<Rightarrow> string option \<times> world" where
  "update_action_status sv aid result w =
     (let status = status_of result;
          scheduled_date = scheduled_date_of aid;
          executed = clock sv (clock_reads w);
          w1 = w\<lparr>clock_reads := Suc (clock_reads w)\<rparr>
      in case invoke sv (UpdateItem aid scheduled_date status executed (message result)) w1 of
           (Some err, w2) \<Rightarrow> (Some err, w2)
         | (None, w2) \<Rightarrow>
             (None, w2\<lparr>actions_table :=
                update_item (actions_table w2) (aid, scheduled_date) status executed
                  (message result)\<rparr>))"

section \<open>Cleanup executor: the handlers\<close>

text \<open>
  Each handler takes the flag \<^verbatim>\<open>DRY_RUN\<close>, the resource and the result so far, and
  returns the result with \<^verbatim>\<open>success\<close> and \<^verbatim>\<open>message\<close> set. In a live run the service
  call stands in a \<^verbatim>\<open>try\<close> whose \<^verbatim>\<open>except Exception\<close> turns a raise into a message.
\<close>

definition stop_ec2_instance ::
  "services \<Rightarrow> bool \<Rightarrow> string \<Rightarrow> result \<Rightarrow> world \<Rightarrow> result \<times> world" where
  "stop_ec2_instance sv dry_run instance_id result w =
     (if dry_run then
        (result\<lparr>success := True, message := ''[DRY RUN] Would stop instance '' @ instance_id\<rparr>, w)
      else case invoke sv (StopInstances instance_id) w of
             (None, w1) \<Rightarrow>
               (result\<lparr>success := True,
                       message := ''Successfully stopped instance '' @ instance_id\<rparr>, w1)
           | (Some e, w1) \<Rightarrow> (result\<lparr>message := ''Failed to stop instance: '' @ e\<rparr>, w1))"

text \<open>
  The loop of \<^verbatim>\<open>terminate_ec2_instance\<close> over the block device mappings: a snapshot is
  created for every mapping with the key \<^verbatim>\<open>'Ebs'\<close>; a raise ends the loop.
\<close>

fun snapshot_mappings ::
  "services \<Rightarrow> string \<Rightarrow> block_device_mapping list \<Rightarrow> world \<Rightarrow> string option \<times> world" where
  "snapshot_mappings sv instance_id [] w = (None, w)"
| "snapshot_mappings sv instance_id (None # bdms) w = snapshot_mappings sv instance_id bdms w"
| "snapshot_mappings sv instance_id (Some volume_id # bdms) w =
     (case invoke sv
             (CreateSnapshot volume_id (''Pre-termination snapshot of '' @ instance_id)) w of
        (Some e, w1) \<Rightarrow> (Some e, w1)
      | (None, w1) \<Rightarrow> snapshot_mappings sv instance_id bdms w1)"

text \<open>
  \<^verbatim>\<open>response['Reservations'][0]['Instances'][0]\<close> raises IndexError on an empty list;
  its text is the message of the exception.
\<close>

definition first_instance ::
  "block_device_mapping list list list \<Rightarrow> string + block_device_mapping list" where
  "first_instance reservations =
     (case reservations of
        [] \<Rightarrow> Inl ''list index out of range''
      | instances # _ \<Rightarrow>
          (case instances of
             [] \<Rightarrow> Inl ''list index out of range''
           | instance # _ \<Rightarrow> Inr instance))"

definition terminate_ec2_instance ::
  "services \<Rightarrow> bool \<Rightarrow> string \<Rightarrow> result \<Rightarrow> world \<Rightarrow> result \<times> world" where
  "terminate_ec2_instance sv dry_run instance_id result w =
     (if dry_run then
        (result\<lparr>success := True,
                message := ''[DRY RUN] Would terminate instance '' @ instance_id\<rparr>, w)
      else case invoke sv (DescribeInstances instance_id) w of
             (Some e, w1) \<Rightarrow> (result\<lparr>message := ''Failed to terminate instance: '' @ e\<rparr>, w1)
           | (None, w1) \<Rightarrow>
               (case first_instance (described sv (calls w) instance_id) of
                  Inl e \<Rightarrow> (result\<lparr>message := ''Failed to terminate instance: '' @ e\<rparr>, w1)
                | Inr instance \<Rightarrow>
                    (case snapshot_mappings sv instance_id instance w1 of
                       (Some e, w2) \<Rightarrow>
                         (result\<lparr>message := ''Failed to terminate instance: '' @ e\<rparr>, w2)
                     | (None, w2) \<Rightarrow>
                         (case invoke sv (TerminateInstances instance_id) w2 of
                            (Some e, w3) \<Rightarrow>
                              (result\<lparr>message := ''Failed to terminate instance: '' @ e\<rparr>, w3)
                          | (None, w3) \<Rightarrow>
                              (result\<lparr>success := True,
                                      message := ''Successfully terminated instance '' @ instance_id\<rparr>,
                               w3)))))"

definition snapshot_and_delete_volume ::
  "services \<Rightarrow> bool \<Rightarrow> string \<Rightarrow> result \<Rightarrow> world \<Rightarrow> result \<times> world" where
  "snapshot_and_delete_volume sv dry_run volume_id result w =
     (if dry_run then
        (result\<lparr>success := True,
                message := ''[DRY RUN] Would snapshot and delete volume '' @ volume_id\<rparr>, w)
      else case invoke sv (CreateSnapshot volume_id (''Pre-deletion snapshot of '' @ volume_id)) w of
             (Some e, w1) \<Rightarrow>
               (result\<lparr>message := ''Failed to snapshot/delete volume: '' @ e\<rparr>, w1)
           | (None, w1) \<Rightarrow>
               (let snapshot_id = created_snapshot sv (calls w) volume_id
                in case invoke sv (WaitSnapshotCompleted snapshot_id) w1 of
                     (Some e, w2) \<Rightarrow>
                       (result\<lparr>message := ''Failed to snapshot/delete volume: '' @ e\<rparr>, w2)
                   | (None, w2) \<Rightarrow>
                       (case invoke sv (DeleteVolume volume_id) w2 of
                          (Some e, w3) \<Rightarrow>
                            (result\<lparr>message := ''Failed to snapshot/delete volume: '' @ e\<rparr>, w3)
                        | (None, w3) \<Rightarrow>
                            (result\<lparr>success := True,
                                    message := ''Snapshotted ('' @ snapshot_id @
                                               '') and deleted volume '' @ volume_id\<rparr>,
                             w3))))"

definition delete_volume ::
  "services \<Rightarrow> bool \<Rightarrow> string \<Rightarrow> result \<Rightarrow> world \<Rightarrow> result \<times> world" where
  "delete_volume sv dry_run volume_id result w =
     (if dry_run then
        (result\<lparr>success := True, message := ''[DRY RUN] Would delete volume '' @ volume_id\<rparr>, w)
      else case invoke sv (DeleteVolume volume_id) w of
             (None, w1) \<Rightarrow>
               (result\<lparr>success := True,
                       message := ''Successfully deleted volume '' @ volume_id\<rparr>, w1)
           | (Some e, w1) \<Rightarrow> (result\<lparr>message := ''Failed to delete volume: '' @ e\<rparr>, w1))"

definition release_elastic_ip ::
  "services \<Rightarrow> bool \<Rightarrow> string \<Rightarrow> result \<Rightarrow> world \<Rightarrow> result \<times> world" where
  "release_elastic_ip sv dry_run allocation_id result w =
     (if dry_run then
        (result\<lparr>success := True,
                message := ''[DRY RUN] Would release Elastic IP '' @ allocation_id\<rparr>, w)
      else case invoke sv (ReleaseAddress allocation_id) w of
             (None, w1) \<Rightarrow>
               (result\<lparr>success := True,
                       message := ''Successfully released Elastic IP '' @ allocation_id\<rparr>, w1)
           | (Some e, w1) \<Rightarrow> (result\<lparr>message := ''Failed to release Elastic IP: '' @ e\<rparr>, w1))"

definition delete_snapshot ::
  "services \<Rightarrow> bool \<Rightarrow> string \<Rightarrow> result \<Rightarrow> world \<Rightarrow> result \<times> world" where
  "delete_snapshot sv dry_run snapshot_id result w =
     (if dry_run then
        (result\<lparr>success := True, message := ''[DRY RUN] Would delete snapshot '' @ snapshot_id\<rparr>, w)
      else case invoke sv (DeleteSnapshot snapshot_id) w of
             (None, w1) \<Rightarrow>
               (result\<lparr>success := True,
                       message := ''Successfully deleted snapshot '' @ snapshot_id\<rparr>, w1)
           | (Some e, w1) \<Rightarrow> (result\<lparr>message := ''Failed to delete snapshot: '' @ e\<rparr>, w1))"

definition deregister_ami ::
  "services \<Rightarrow> bool \<Rightarrow> string \<Rightarrow> result \<Rightarrow> world \<Rightarrow> result \<times> world" where
  "deregister_ami sv dry_run ami_id result w =
     (if dry_run then
        (result\<lparr>success := True, message := ''[DRY RUN] Would deregister AMI '' @ ami_id\<rparr>, w)
      else case invoke sv (DeregisterImage ami_id) w of
             (None, w1) \<Rightarrow>
               (result\<lparr>success := True,
                       message := ''Successfully deregistered AMI '' @ ami_id\<rparr>, w1)
           | (Some e, w1) \<Rightarrow> (result\<lparr>message := ''Failed to deregister AMI: '' @ e\<rparr>, w1))"

definition delete_load_balancer ::
  "services \<Rightarrow> bool \<Rightarrow> string \<Rightarrow> result \<Rightarrow> world \<Rightarrow> result \<times> world" where
  "delete_load_balancer sv dry_run lb_arn result w =
     (if dry_run then
        (result\<lparr>success := True,
                message := ''[DRY RUN] Would delete load balancer '' @ lb_arn\<rparr>, w)
      else case invoke sv (DeleteLoadBalancer lb_arn) w of
             (None, w1) \<Rightarrow>
               (result\<lparr>success := True,
                       message := ''Successfully deleted load balancer '' @ lb_arn\<rparr>, w1)
           | (Some e, w1) \<Rightarrow> (result\<lparr>message := ''Failed to delete load balancer: '' @ e\<rparr>, w1))"

section \<open>Cleanup executor: \<^verbatim>\<open>execute_cleanup_action\<close>\<close>

text \<open>
  The chain of \<^verbatim>\<open>if\<close> and \<^verbatim>\<open>elif\<close> on the resource type, each with its own chain on the
  action type. Only the last \<^verbatim>\<open>else\<close>, on the resource type, sets \<^verbatim>\<open>skipped\<close>; an inner
  chain has no \<^verbatim>\<open>else\<close> and leaves the result as it is.
\<close>

definition dispatch ::
  "services \<Rightarrow> bool \<Rightarrow> string \<Rightarrow> string \<Rightarrow> string \<Rightarrow> result \<Rightarrow> world \<Rightarrow> result \<times> world" where
  "dispatch sv dry_run rtype atype rid result w =
     (if rtype = ''ec2_instance'' then
        (if atype = ''stop'' then stop_ec2_instance sv dry_run rid result w
         else if atype = ''terminate'' then terminate_ec2_instance sv dry_run rid result w
         else (result, w))
      else if rtype = ''ebs_volume'' then
        (if atype = ''snapshot_and_delete'' then snapshot_and_delete_volume sv dry_run rid result w
         else if atype = ''delete'' then delete_volume sv dry_run rid result w
         else (result, w))
      else if rtype = ''elastic_ip'' then
        (if atype = ''release'' then release_elastic_ip sv dry_run rid result w
         else (result, w))
      else if rtype = ''snapshot'' then
        (if atype = ''delete'' then delete_snapshot sv dry_run rid result w
         else (result, w))
      else if rtype = ''ami'' then
        (if atype = ''deregister'' then deregister_ami sv dry_run rid result w
         else (result, w))
      else if rtype = ''load_balancer'' then
        (if atype = ''delete'' then delete_load_balancer sv dry_run rid result w
         else (result, w))
      else
        (result\<lparr>skipped := True, message := ''Unsupported resource type: '' @ rtype\<rparr>, w))"

text \<open>
  The result starts with \<^verbatim>\<open>success\<close> and \<^verbatim>\<open>skipped\<close> false and an empty message. After
  the dispatch the status is written to the table; a raise of that write is caught by
  the outer \<^verbatim>\<open>except\<close>, which replaces the message of the returned result.
\<close>

definition initial_result :: "action \<Rightarrow> result" where
  "initial_result action =
     \<lparr>action_id = action_id action, resource_id = resource_id action,
      resource_type = resource_type action, action_type = action_type action,
      success = False, skipped = False, message = [],
      savings = (case estimated_savings action of None \<Rightarrow> 0 | Some s \<Rightarrow> s)\<rparr>"

definition execute_cleanup_action ::
  "services \<Rightarrow> bool \<Rightarrow> action \<Rightarrow> world \<Rightarrow> result \<times> world" where
  "execute_cleanup_action sv dry_run action w =
     (case dispatch sv dry_run (resource_type action) (action_type action)
             (resource_id action) (initial_result action) w of
        (result, w1) \<Rightarrow>
          (case update_action_status sv (action_id action) result w1 of
             (None, w2) \<Rightarrow> (result, w2)
           | (Some e, w2) \<Rightarrow> (result\<lparr>message := e\<rparr>, w2)))"

text \<open>
  The pairs of resource type and action type for which the chain calls a handler.
\<close>

definition dispatch_table :: "(string \<times> string) list" where
  "dispatch_table =
     [(''ec2_instance'', ''stop''), (''ec2_instance'', ''terminate''),
      (''ebs_volume'', ''snapshot_and_delete''), (''ebs_volume'', ''delete''),
      (''elastic_ip'', ''release''), (''snapshot'', ''delete''),
      (''ami'', ''deregister''), (''load_balancer'', ''delete'')]"

definition supported_resource_types :: "string list" where
  "supported_resource_types =
     [''ec2_instance'', ''ebs_volume'', ''elastic_ip'', ''snapshot'', ''ami'', ''load_balancer'']"

text \<open>The calls made between two worlds, the earlier first.\<close>

definition new_calls :: "world \<Rightarrow> world \<Rightarrow> call list" where
  "new_calls w w' = drop (length (calls w)) (calls w')"

text \<open>
  Services on which no call raises: the instance described has one volume attached,
  snapshots get the id \<open>snap-1\<close>, and the clock reads a later second each time.
\<close>

definition clock_at :: "nat \<Rightarrow> string" where
  "clock_at n = (if n = 0 then ''2024-01-02T00:00:00'' else ''2024-01-02T00:00:01'')"

definition calm_services :: services where
  "calm_services =
     \<lparr>fails = (\<lambda>log c. None),
      described = (\<lambda>log i. [[[Some ''vol-1'']]]),
      created_snapshot = (\<lambda>log v. ''snap-1''),
      clock = clock_at\<rparr>"

definition empty_world :: world where
  "empty_world = \<lparr>calls = [], actions_table = (\<lambda>k. None), clock_reads = 0\<rparr>"

definition action_of :: "string \<Rightarrow> string \<Rightarrow> string \<Rightarrow> action" where
  "action_of rtype atype rid =
     \<lparr>action_id = ''2024-01-01-'' @ rid, resource_id = rid, resource_type = rtype,
      action_type = atype, estimated_savings = None\<rparr>"

section \<open>Cleanup executor: what a handler may add to the calls\<close>

text \<open>Calls are only added, and a handler adds no write to the table.\<close>

fun service_call :: "call \<Rightarrow> bool" where
  "service_call (UpdateItem a d s t m) = False"
| "service_call c = True"

definition grows :: "world \<Rightarrow> world \<Rightarrow> bool" where
  "grows w w' = (\<exists>cs. calls w' = calls w @ cs \<and> list_all service_call cs)"

text \<open>
  What every handler keeps in a live run: the calls grow, and a result that became a
  success has a message without the marker of a dry run.
\<close>

definition live_ok :: "result \<Rightarrow> world \<Rightarrow> result \<times> world \<Rightarrow> bool" where
  "live_ok res w out =
     (grows w (snd out) \<and>
      (success (fst out) \<longrightarrow> success res \<or> \<not> prefix ''[DRY RUN]'' (message (fst out))))"

text \<open>The write to the actions table that \<^verbatim>\<open>update_action_status\<close> makes.\<close>

definition status_write :: "services \<Rightarrow> string \<Rightarrow> result \<Rightarrow> world \<Rightarrow> call" where
  "status_write sv aid r w =
     UpdateItem aid (scheduled_date_of aid) (status_of r) (clock sv (clock_reads w)) (message r)"

text \<open>Services that refuse every snapshot and answer every other call.\<close>

fun refuses_snapshots :: "call \<Rightarrow> string option" where
  "refuses_snapshots (CreateSnapshot v d) = Some ''SnapshotLimitExceeded''"
| "refuses_snapshots c = None"

definition no_snapshot_services :: services where
  "no_snapshot_services = calm_services\<lparr>fails := (\<lambda>cs. refuses_snapshots)\<rparr>"

text \<open>The result of a live stop that succeeded.\<close>

definition stopped_result :: result where
  "stopped_result =
     (initial_result (action_of ''ec2_instance'' ''stop'' ''i-1''))
       \<lparr>success := True, message := ''Successfully stopped instance i-1''\<rparr>"

section \<open>Tag enforcer: \<^verbatim>\<open>check_resource_compliance\<close>\<close>

text \<open>
  A rule of \<^verbatim>\<open>policies['required_tags']\<close> has the keys \<^verbatim>\<open>'key'\<close> and \<^verbatim>\<open>'values'\<close> and may
  have the key \<^verbatim>\<open>'pattern'\<close>, a regular expression of some type \<open>'p\<close>. The field for
  \<^verbatim>\<open>'values'\<close> is written \<open>tag_values\<close>.
\<close>

record 'p required_tag =
  key :: string
  tag_values :: "string list"
  pattern :: "'p option"

text \<open>
  An entry of \<^verbatim>\<open>invalid_tags\<close> is a dict of \<^verbatim>\<open>'key'\<close>, \<^verbatim>\<open>'value'\<close> and either
  \<^verbatim>\<open>'allowed_values'\<close> or \<^verbatim>\<open>'pattern'\<close>.
\<close>

datatype 'p invalid_tag =
    NotAllowed string string "string list"
  | NoMatch string string 'p

record 'p compliance =
  compliant :: bool
  missing_tags :: "string list"
  invalid_tags :: "'p invalid_tag list"

text \<open>
  The loop over the rules, with the lists \<^verbatim>\<open>missing_tags\<close> and \<^verbatim>\<open>invalid_tags\<close> it appends
  to. \<open>re_match p v\<close> says whether \<^verbatim>\<open>re.match(p, v)\<close> returns a match; the tags are a dict
  from strings to strings.
\<close>

fun check_rules ::
  "('p \<Rightarrow> string \<Rightarrow> bool) \<Rightarrow> (string \<Rightarrow> string option) \<Rightarrow> 'p required_tag list \<Rightarrow>
     string list \<Rightarrow> 'p invalid_tag list \<Rightarrow> string list \<times> 'p invalid_tag list" where
  "check_rules re_match tags [] missing invalid = (missing, invalid)"
| "check_rules re_match tags (required_tag # rest) missing invalid =
     (let tag_key = key required_tag in
      case tags tag_key of
        None \<Rightarrow> check_rules re_match tags rest (missing @ [tag_key]) invalid
      | Some tag_value \<Rightarrow>
          (let invalid1 =
                 (if tag_values required_tag \<noteq> [] \<and> tag_value \<notin> set (tag_values required_tag)
                  then invalid @ [NotAllowed tag_key tag_value (tag_values required_tag)]
                  else invalid);
               invalid2 =
                 (case pattern required_tag of
                    None \<Rightarrow> invalid1
                  | Some p \<Rightarrow>
                      if \<not> re_match p tag_value
                      then invalid1 @ [NoMatch tag_key tag_value p]
                      else invalid1)
           in check_rules re_match tags rest missing invalid2))"

definition check_resource_compliance ::
  "('p \<Rightarrow> string \<Rightarrow> bool) \<Rightarrow> (string \<Rightarrow> string option) \<Rightarrow> 'p required_tag list \<Rightarrow>
     'p compliance" where
  "check_resource_compliance re_match tags required_tags =
     (case check_rules re_match tags required_tags [] [] of
        (missing, invalid) \<Rightarrow>
          \<lparr>compliant = (length missing = 0 \<and> length invalid = 0),
           missing_tags = missing, invalid_tags = invalid\<rparr>)"

text \<open>
  The default policy of \<^verbatim>\<open>load_tag_policies\<close>, which has no pattern, and a matcher for
  patterns that are plain strings: the value starts with the pattern.
\<close>

definition default_required_tags :: "string required_tag list" where
  "default_required_tags =
     [\<lparr>key = ''Environment'', tag_values = [''Production'', ''Staging'', ''Development''],
        pattern = None\<rparr>,
      \<lparr>key = ''Owner'', tag_values = [], pattern = None\<rparr>,
      \<lparr>key = ''CostCenter'', tag_values = [], pattern = None\<rparr>]"

definition literal_match :: "string \<Rightarrow> string \<Rightarrow> bool" where
  "literal_match p v = prefix p v"

definition sample_tags :: "string \<Rightarrow> string option" where
  "sample_tags = [''Environment'' \<mapsto> ''Testing'', ''Owner'' \<mapsto> ''ops'']"

section \<open>Rounding and dicts\<close>

text \<open>
  \<^verbatim>\<open>round(x, 2)\<close> on exact rationals: to the nearest hundredth, a tie going to the even
  one. (On floats Python rounds the binary value; the model leaves that out.)
\<close>

definition round_half_even :: "rat \<Rightarrow> int" where
  "round_half_even y =
     (let f = \<lfloor>y\<rfloor>; d = y - of_int f
      in if d < 1 / 2 then f else if 1 / 2 < d then f + 1 else if even f then f else f + 1)"

definition py_round2 :: "rat \<Rightarrow> rat" where
  "py_round2 x = of_int (round_half_even (x * 100)) / 100"

text \<open>
  A dict with string keys, in insertion order: \<^verbatim>\<open>d[k] = v\<close>, and the dict built from a
  list of pairs, where a later pair replaces the value of an earlier one.
\<close>

fun dict_put :: "string \<Rightarrow> 'v \<Rightarrow> (string \<times> 'v) list \<Rightarrow> (string \<times> 'v) list" where
  "dict_put k v [] = [(k, v)]"
| "dict_put k v ((k', v') # d) = (if k' = k then (k, v) # d else (k', v') # dict_put k v d)"

definition dict_of :: "(string \<times> 'v) list \<Rightarrow> (string \<times> 'v) list" where
  "dict_of kvs = foldl (\<lambda>d (k, v). dict_put k v d) [] kvs"

text \<open>An item of a table or a finding of a scan: a dict of attribute values.\<close>

type_synonym fields = "(string \<times> attr) list"

section \<open>Report generator: \<^verbatim>\<open>generate_idle_resources_summary\<close>\<close>

text \<open>
  A key of a Python dict must be hashable: a string or a number is, a map is not (using
  it raises TypeError).
\<close>

fun hashable :: "attr \<Rightarrow> bool" where
  "hashable (AttrS s) = True"
| "hashable (AttrN n) = True"
| "hashable (AttrM m) = False"

text \<open>
  \<^verbatim>\<open>resources_by_type\<close> maps a resource type to its \<^verbatim>\<open>count\<close> and its \<^verbatim>\<open>resources\<close>, each
  resource a pair of \<^verbatim>\<open>id\<close> and \<^verbatim>\<open>metadata\<close>. One round of the loop over the items: a
  missing \<^verbatim>\<open>resource_type\<close> or \<^verbatim>\<open>resource_id\<close> raises KeyError, a missing \<^verbatim>\<open>metadata\<close> is
  the empty map.
\<close>

type_synonym by_type_dict = "(attr \<times> nat \<times> (attr \<times> attr) list) list"

definition summarise_item :: "fields \<Rightarrow> by_type_dict \<Rightarrow> exn + by_type_dict" where
  "summarise_item item resources_by_type =
     (case map_of item ''resource_type'' of
        None \<Rightarrow> Inl (KeyError ''resource_type'')
      | Some rtype \<Rightarrow>
          if \<not> hashable rtype then Inl TypeError
          else
            (let by1 = (if rtype \<in> set (map fst resources_by_type) then resources_by_type
                        else resources_by_type @ [(rtype, 0, [])]);
                 by2 = map (\<lambda>(t, n, es). if t = rtype then (t, n + 1, es) else (t, n, es)) by1
             in case map_of item ''resource_id'' of
                  None \<Rightarrow> Inl (KeyError ''resource_id'')
                | Some rid \<Rightarrow>
                    Inr (map (\<lambda>(t, n, es).
                               if t = rtype
                               then (t, n, es @ [(rid, (case map_of item ''metadata'' of
                                                          None \<Rightarrow> AttrM []
                                                        | Some md \<Rightarrow> md))])
                               else (t, n, es)) by2)))"

fun summarise_items :: "fields list \<Rightarrow> by_type_dict \<Rightarrow> exn + by_type_dict" where
  "summarise_items [] resources_by_type = Inr resources_by_type"
| "summarise_items (item # items) resources_by_type =
     (case summarise_item item resources_by_type of
        Inl e \<Rightarrow> Inl e
      | Inr by' \<Rightarrow> summarise_items items by')"

record idle_summary =
  total_idle_resources :: nat
  by_type :: by_type_dict
  total_savings :: rat

text \<open>
  The argument is what \<^verbatim>\<open>table.scan\<close> gives: an exception, or \<^verbatim>\<open>response['Items']\<close>. The
  sum \<open>total\<close> (\<^verbatim>\<open>total_savings\<close> in the source) is set to 0 before the loop and is not
  assigned in it; any exception gives the summary of the \<^verbatim>\<open>except\<close> branch.
\<close>

definition generate_idle_resources_summary :: "exn + fields list \<Rightarrow> idle_summary" where
  "generate_idle_resources_summary scan_response =
     (case scan_response of
        Inl e \<Rightarrow> \<lparr>total_idle_resources = 0, by_type = [], total_savings = 0\<rparr>
      | Inr items \<Rightarrow>
          (let total = 0
           in case summarise_items items [] of
                Inl e \<Rightarrow> \<lparr>total_idle_resources = 0, by_type = [], total_savings = 0\<rparr>
              | Inr resources_by_type \<Rightarrow>
                  \<lparr>total_idle_resources = sum_list (map (\<lambda>(t, n, es). n) resources_by_type),
                   by_type = resources_by_type,
                   total_savings = py_round2 total\<rparr>))"

text \<open>An item with every attribute the loop reads, and a cost attribute besides.\<close>

definition costly_item :: "string \<Rightarrow> rat \<Rightarrow> fields" where
  "costly_item rid c =
     [(''resource_id'', AttrS rid), (''resource_type'', AttrS ''ebs_volume''),
      (''metadata'', AttrM [(''size_gb'', AttrN 100)]),
      (''estimated_monthly_cost'', AttrN c)]"

text \<open>
  Two items that agree on the three attributes the loop reads; their other attributes,
  a cost among them, may differ.
\<close>

definition same_read_fields :: "fields \<Rightarrow> fields \<Rightarrow> bool" where
  "same_read_fields a b =
     (map_of a ''resource_type'' = map_of b ''resource_type'' \<and>
      map_of a ''resource_id'' = map_of b ''resource_id'' \<and>
      map_of a ''metadata'' = map_of b ''metadata'')"

section \<open>Resource scanner: idle instances and databases\<close>

text \<open>
  What the scanner reads and writes: the hourly averages of a metric for a resource over
  seven days (\<^verbatim>\<open>response['Datapoints']\<close>, each with its \<^verbatim>\<open>'Average'\<close>), or the exception
  the query raises; whether the write of an item to the idle-resources table raises; and
  the readings of the clock that a saved item carries.
\<close>

record monitoring =
  cpu_statistics :: "string \<Rightarrow> exn + rat list"
  connection_statistics :: "string \<Rightarrow> exn + rat list"
  put_item_raises :: "fields \<Rightarrow> exn option"
  scan_date :: string
  scanned_at :: string
  ttl :: rat

text \<open>
  An instance and a database as the describe calls return them;
  \<^verbatim>\<open>instance.get('Tags', [])\<close> is the list \<open>Tags\<close>, and \<open>StateName\<close> is
  \<^verbatim>\<open>instance['State']['Name']\<close>.
\<close>

record ec2_instance =
  InstanceId :: string
  Tags :: "(string \<times> string) list"
  InstanceType :: string
  LaunchTime :: string
  StateName :: string

record db_instance =
  DBInstanceIdentifier :: string
  DBInstanceClass :: string
  Engine :: string
  InstanceCreateTime :: string

definition get_cpu_utilization :: "monitoring \<Rightarrow> string \<Rightarrow> rat" where
  "get_cpu_utilization mon instance_id =
     (case cpu_statistics mon instance_id of
        Inl e \<Rightarrow> 0
      | Inr datapoints \<Rightarrow>
          if datapoints \<noteq> []
          then py_round2 (sum_list datapoints / of_nat (length datapoints))
          else 0)"

definition get_rds_connections :: "monitoring \<Rightarrow> string \<Rightarrow> rat" where
  "get_rds_connections mon db_id =
     (case connection_statistics mon db_id of
        Inl e \<Rightarrow> 0
      | Inr datapoints \<Rightarrow>
          if datapoints \<noteq> []
          then py_round2 (sum_list datapoints / of_nat (length datapoints))
          else 0)"

definition estimate_ec2_cost :: "string \<Rightarrow> rat" where
  "estimate_ec2_cost instance_type =
     (case map_of [(''t2.micro'', 847 / 100), (''t2.small'', 1693 / 100),
                   (''t2.medium'', 3387 / 100), (''t3.micro'', 759 / 100),
                   (''t3.small'', 1518 / 100), (''t3.medium'', 3037 / 100)] instance_type of
        None \<Rightarrow> 50
      | Some price \<Rightarrow> price)"

definition estimate_rds_cost :: "string \<Rightarrow> rat" where
  "estimate_rds_cost instance_class =
     (case map_of [(''db.t2.micro'', 1460 / 100), (''db.t2.small'', 2920 / 100),
                   (''db.t3.micro'', 1314 / 100), (''db.t3.small'', 2628 / 100)] instance_class of
        None \<Rightarrow> 50
      | Some price \<Rightarrow> price)"

definition save_idle_resource ::
  "monitoring \<Rightarrow> string \<Rightarrow> string \<Rightarrow> fields \<Rightarrow> fields list \<Rightarrow> exn + fields list" where
  "save_idle_resource mon rid rtype metadata table =
     (let item = [(''resource_id'', AttrS rid), (''scan_date'', AttrS (scan_date mon)),
                  (''resource_type'', AttrS rtype), (''metadata'', AttrM metadata),
                  (''scanned_at'', AttrS (scanned_at mon)), (''ttl'', AttrN (ttl mon))]
      in case put_item_raises mon item of
           Some e \<Rightarrow> Inl e
         | None \<Rightarrow> Inr (table @ [item]))"

text \<open>
  The tags of an instance as a dict, the test that skips an instance, and the finding
  appended for an idle one.
\<close>

definition tags_of :: "ec2_instance \<Rightarrow> (string \<times> string) list" where
  "tags_of instance = dict_of (Tags instance)"

definition skipped_by_tags :: "(string \<times> string) list \<Rightarrow> bool" where
  "skipped_by_tags tags =
     (''DoNotStop'' \<in> set (map fst tags) \<or> map_of tags ''Environment'' = Some ''Production'')"

definition ec2_finding :: "ec2_instance \<Rightarrow> rat \<Rightarrow> fields" where
  "ec2_finding instance cpu_avg =
     [(''resource_id'', AttrS (InstanceId instance)),
      (''resource_type'', AttrS ''ec2_instance''),
      (''instance_type'', AttrS (InstanceType instance)),
      (''launch_time'', AttrS (LaunchTime instance)),
      (''cpu_average'', AttrN cpu_avg),
      (''state'', AttrS (StateName instance)),
      (''tags'', AttrM (map (\<lambda>(k, v). (k, AttrS v)) (tags_of instance))),
      (''estimated_monthly_cost'', AttrN (estimate_ec2_cost (InstanceType instance)))]"

definition rds_finding :: "db_instance \<Rightarrow> rat \<Rightarrow> fields" where
  "rds_finding db connections =
     [(''resource_id'', AttrS (DBInstanceIdentifier db)),
      (''resource_type'', AttrS ''rds_instance''),
      (''instance_class'', AttrS (DBInstanceClass db)),
      (''engine'', AttrS (Engine db)),
      (''create_time'', AttrS (InstanceCreateTime db)),
      (''connections_average'', AttrN connections),
      (''estimated_monthly_cost'', AttrN (estimate_rds_cost (DBInstanceClass db)))]"

text \<open>
  The loops of \<^verbatim>\<open>scan_idle_ec2_instances\<close> and \<^verbatim>\<open>scan_idle_rds_instances\<close>, carrying the
  list of findings and the table. A finding is appended before its item is saved; a
  raise of the save leaves the loop for the \<^verbatim>\<open>except\<close>, and the findings so far are
  returned.
\<close>

fun scan_instances ::
  "monitoring \<Rightarrow> ec2_instance list \<Rightarrow> fields list \<Rightarrow> fields list \<Rightarrow> fields list \<times> fields list" where
  "scan_instances mon [] idle_instances table = (idle_instances, table)"
| "scan_instances mon (instance # rest) idle_instances table =
     (if skipped_by_tags (tags_of instance) then scan_instances mon rest idle_instances table
      else
        (let cpu_avg = get_cpu_utilization mon (InstanceId instance) in
         if cpu_avg < 5 then
           (let found = idle_instances @ [ec2_finding instance cpu_avg] in
            case save_idle_resource mon (InstanceId instance) ''ec2_instance''
                   [(''cpu_average'', AttrN cpu_avg),
                    (''instance_type'', AttrS (InstanceType instance))] table of
              Inl e \<Rightarrow> (found, table)
            | Inr table' \<Rightarrow> scan_instances mon rest found table')
         else scan_instances mon rest idle_instances table))"

definition scan_idle_ec2_instances ::
  "monitoring \<Rightarrow> exn + ec2_instance list list \<Rightarrow> fields list \<Rightarrow> fields list \<times> fields list" where
  "scan_idle_ec2_instances mon describe_response table =
     (case describe_response of
        Inl e \<Rightarrow> ([], table)
      | Inr reservations \<Rightarrow> scan_instances mon (concat reservations) [] table)"

fun scan_databases ::
  "monitoring \<Rightarrow> db_instance list \<Rightarrow> fields list \<Rightarrow> fields list \<Rightarrow> fields list \<times> fields list" where
  "scan_databases mon [] idle_rds table = (idle_rds, table)"
| "scan_databases mon (db # rest) idle_rds table =
     (let connections = get_rds_connections mon (DBInstanceIdentifier db) in
      if connections < 1 then
        (let found = idle_rds @ [rds_finding db connections] in
         case save_idle_resource mon (DBInstanceIdentifier db) ''rds_instance''
                [(''connections_average'', AttrN connections),
                 (''instance_class'', AttrS (DBInstanceClass db))] table of
           Inl e \<Rightarrow> (found, table)
         | Inr table' \<Rightarrow> scan_databases mon rest found table')
      else scan_databases mon rest idle_rds table)"

definition scan_idle_rds_instances ::
  "monitoring \<Rightarrow> exn + db_instance list \<Rightarrow> fields list \<Rightarrow> fields list \<times> fields list" where
  "scan_idle_rds_instances mon describe_response table =
     (case describe_response of
        Inl e \<Rightarrow> ([], table)
      | Inr db_instances \<Rightarrow> scan_databases mon db_instances [] table)"

text \<open>
  Monitoring whose CPU query raises and whose connection query has no datapoints, with a
  table that takes every item; a running instance without tags, and a database.
\<close>

definition silent_monitoring :: monitoring where
  "silent_monitoring =
     \<lparr>cpu_statistics = (\<lambda>i. Inl (ServiceError ''Throttling'')),
      connection_statistics = (\<lambda>d. Inr []),
      put_item_raises = (\<lambda>item. None),
      scan_date = ''2024-01-02'', scanned_at = ''2024-01-02T00:00:00'', ttl = 1706745600\<rparr>"

definition web_instance :: ec2_instance where
  "web_instance =
     \<lparr>InstanceId = ''i-1'', Tags = [], InstanceType = ''t3.micro'',
      LaunchTime = ''2023-12-01T00:00:00'', StateName = ''running''\<rparr>"

definition orders_db :: db_instance where
  "orders_db =
     \<lparr>DBInstanceIdentifier = ''orders'', DBInstanceClass = ''db.t3.micro'', Engine = ''postgres'',
      InstanceCreateTime = ''2023-12-01T00:00:00''\<rparr>"

section \<open>Anomaly detector: the baseline window\<close>

lemma length_baseline_costs: "length (baseline_costs xs) = length xs - 7"
  by (simp add: baseline_costs_def)

lemma baseline_avg_fails_iff:
  "(baseline_avg xs = Inl ZeroDivisionError) = (length xs \<le> 7)"
  by (auto simp: baseline_avg_def py_truediv_def length_baseline_costs)

lemma baseline_avg_value:
  "7 < length xs \<Longrightarrow>
     baseline_avg xs =
       Inr (sum_list (baseline_costs xs) / of_nat (length xs - 7))"
  by (simp add: baseline_avg_def py_truediv_def length_baseline_costs)

text \<open>
  C10. A series of exactly seven days passes the length guard, its baseline window is
  empty, and the mean \<^verbatim>\<open>sum([]) / len([])\<close> raises ZeroDivisionError, which nothing in
  \<^verbatim>\<open>detect_anomalies\<close> catches; no anomaly is written. Among the series that pass the
  guard, the mean of the baseline window fails exactly for those of length seven: with
  eight days or more it is the sum of the window over its length.
\<close>

theorem detect_anomalies_seven_days_raises:
  "(length xs = 7 \<longrightarrow>
      detect_anomalies put threshold xs table = (Inl ZeroDivisionError, table)) \<and>
   (7 \<le> length xs \<longrightarrow>
      (baseline_avg xs = Inl ZeroDivisionError) = (length xs = 7)) \<and>
   (8 \<le> length xs \<longrightarrow>
      baseline_avg xs = Inr (sum_list (baseline_costs xs) / of_nat (length xs - 7)))"
proof (intro conjI impI)
  assume seven: "length xs = 7"
  then have "baseline_avg xs = Inl ZeroDivisionError"
    by (simp add: baseline_avg_fails_iff)
  with seven show "detect_anomalies put threshold xs table = (Inl ZeroDivisionError, table)"
    by (simp add: detect_anomalies_def)
next
  assume "7 \<le> length xs"
  then show "(baseline_avg xs = Inl ZeroDivisionError) = (length xs = 7)"
    by (auto simp: baseline_avg_fails_iff)
next
  assume "8 \<le> length xs"
  then show "baseline_avg xs = Inr (sum_list (baseline_costs xs) / of_nat (length xs - 7))"
    by (simp add: baseline_avg_value)
qed

theorem detect_anomalies_seven_days_raises_witness:
  "detect_anomalies (\<lambda>a. None) 25 (replicate 7 (day_of 100)) [] = (Inl ZeroDivisionError, []) \<and>
   baseline_avg (replicate 7 (day_of 100)) = Inl ZeroDivisionError \<and>
   baseline_avg (replicate 8 (day_of 100)) = Inr 100"
proof -
  have a: "detect_anomalies (\<lambda>a. None) 25 (replicate 7 (day_of 100)) [] =
             (Inl ZeroDivisionError, [])"
    using detect_anomalies_seven_days_raises
      [of "replicate 7 (day_of 100)" "\<lambda>a. None" 25 "[]"]
    by simp
  have b: "baseline_avg (replicate 7 (day_of 100)) = Inl ZeroDivisionError"
    using detect_anomalies_seven_days_raises
      [of "replicate 7 (day_of 100)" "\<lambda>a. None" 25 "[]"]
    by simp
  have "baseline_avg (replicate 8 (day_of 100)) =
          Inr (sum_list (baseline_costs (replicate 8 (day_of 100))) / of_nat (8 - 7))"
    using detect_anomalies_seven_days_raises
      [of "replicate 8 (day_of 100)" "\<lambda>a. None" 25 "[]"]
    by simp
  then have c: "baseline_avg (replicate 8 (day_of 100)) = Inr 100"
    by (simp add: baseline_costs_def day_of_def)
  from a b c show ?thesis by simp
qed

section \<open>Anomaly detector: a baseline of zero\<close>

text \<open>
  With a baseline of zero the first evaluation day already divides by zero, whatever
  its cost, before anything is compared with the threshold or written.
\<close>

lemma check_days_zero_baseline:
  "days \<noteq> [] \<Longrightarrow>
     check_days put threshold 0 days anomalies table = (Inl ZeroDivisionError, table)"
  by (cases days) (simp_all add: py_truediv_def)

lemma detect_anomalies_zero_baseline:
  assumes "8 \<le> length xs" and "sum_list (baseline_costs xs) = 0"
  shows "detect_anomalies put threshold xs table = (Inl ZeroDivisionError, table)"
proof -
  from assms have "baseline_avg xs = Inr 0"
    by (simp add: baseline_avg_value)
  moreover from assms(1) have "drop (length xs - 7) xs \<noteq> []"
    by simp
  ultimately show ?thesis
    using assms(1) by (simp add: detect_anomalies_def check_days_zero_baseline)
qed

text \<open>
  C5. The claim asks that a baseline-window mean of zero is handled without a division by
  zero: deviation 0 for a day of cost 0, a maximal deviation otherwise. The code has no
  such case. For eight days of cost 0, and for one day of cost 0 followed by seven days
  of cost 10, the baseline mean is 0 and \<^verbatim>\<open>detect_anomalies\<close> raises ZeroDivisionError at
  the first evaluation day instead of returning anomalies.
\<close>

theorem detect_anomalies_zero_baseline_raises:
  "detect_anomalies (\<lambda>a. None) 25 (replicate 8 (day_of 0)) [] =
     (Inl ZeroDivisionError, []) \<and>
   baseline_avg (replicate 8 (day_of 0)) = Inr 0 \<and>
   detect_anomalies (\<lambda>a. None) 25 (day_of 0 # replicate 7 (day_of 10)) [] =
     (Inl ZeroDivisionError, []) \<and>
   baseline_avg (day_of 0 # replicate 7 (day_of 10)) = Inr 0"
proof -
  have s1: "sum_list (baseline_costs (replicate 8 (day_of 0))) = 0"
    by (simp add: baseline_costs_def day_of_def)
  have s2: "sum_list (baseline_costs (day_of 0 # replicate 7 (day_of 10))) = 0"
    by (simp add: baseline_costs_def day_of_def)
  have "detect_anomalies (\<lambda>a. None) 25 (replicate 8 (day_of 0)) [] =
          (Inl ZeroDivisionError, [])"
    using s1 by (simp add: detect_anomalies_zero_baseline)
  moreover have "baseline_avg (replicate 8 (day_of 0)) = Inr 0"
    using s1 by (simp add: baseline_avg_value)
  moreover have "detect_anomalies (\<lambda>a. None) 25 (day_of 0 # replicate 7 (day_of 10)) [] =
          (Inl ZeroDivisionError, [])"
    using s2 by (simp add: detect_anomalies_zero_baseline)
  moreover have "baseline_avg (day_of 0 # replicate 7 (day_of 10)) = Inr 0"
    using s2 by (simp add: baseline_avg_value)
  ultimately show ?thesis by simp
qed

section \<open>Cleanup executor: dispatch and the calls made\<close>

lemma update_action_status_eq:
  "update_action_status sv aid r w =
     (fails sv (calls w)
        (UpdateItem aid (scheduled_date_of aid) (status_of r) (clock sv (clock_reads w)) (message r)),
      w\<lparr>clock_reads := Suc (clock_reads w),
        calls := calls w @
          [UpdateItem aid (scheduled_date_of aid) (status_of r) (clock sv (clock_reads w)) (message r)],
        actions_table :=
          (if fails sv (calls w)
                (UpdateItem aid (scheduled_date_of aid) (status_of r) (clock sv (clock_reads w))
                   (message r)) = None
           then update_item (actions_table w) (aid, scheduled_date_of aid) (status_of r)
                  (clock sv (clock_reads w)) (message r)
           else actions_table w)\<rparr>)"
  by (simp add: update_action_status_def invoke_def Let_def split: option.splits)

lemma dispatch_ec2_stop:
  "dispatch sv d ''ec2_instance'' ''stop'' rid res w = stop_ec2_instance sv d rid res w"
  by (simp add: dispatch_def)

lemma dispatch_ec2_terminate:
  "dispatch sv d ''ec2_instance'' ''terminate'' rid res w = terminate_ec2_instance sv d rid res w"
  by (simp add: dispatch_def)

lemma dispatch_ebs_snapshot_and_delete:
  "dispatch sv d ''ebs_volume'' ''snapshot_and_delete'' rid res w =
     snapshot_and_delete_volume sv d rid res w"
  by (simp add: dispatch_def)

lemma dispatch_ebs_delete:
  "dispatch sv d ''ebs_volume'' ''delete'' rid res w = delete_volume sv d rid res w"
  by (simp add: dispatch_def)

lemma dispatch_eip_release:
  "dispatch sv d ''elastic_ip'' ''release'' rid res w = release_elastic_ip sv d rid res w"
  by (simp add: dispatch_def)

lemma dispatch_snapshot_delete:
  "dispatch sv d ''snapshot'' ''delete'' rid res w = delete_snapshot sv d rid res w"
  by (simp add: dispatch_def)

lemma dispatch_ami_deregister:
  "dispatch sv d ''ami'' ''deregister'' rid res w = deregister_ami sv d rid res w"
  by (simp add: dispatch_def)

lemma dispatch_lb_delete:
  "dispatch sv d ''load_balancer'' ''delete'' rid res w = delete_load_balancer sv d rid res w"
  by (simp add: dispatch_def)


lemma dispatch_table_cases:
  assumes "(rtype, atype) \<in> set dispatch_table"
  shows "(rtype = ''ec2_instance'' \<and> atype = ''stop'') \<or>
         (rtype = ''ec2_instance'' \<and> atype = ''terminate'') \<or>
         (rtype = ''ebs_volume'' \<and> atype = ''snapshot_and_delete'') \<or>
         (rtype = ''ebs_volume'' \<and> atype = ''delete'') \<or>
         (rtype = ''elastic_ip'' \<and> atype = ''release'') \<or>
         (rtype = ''snapshot'' \<and> atype = ''delete'') \<or>
         (rtype = ''ami'' \<and> atype = ''deregister'') \<or>
         (rtype = ''load_balancer'' \<and> atype = ''delete'')"
  using assms by (simp add: dispatch_table_def)

lemma dispatch_dry_run:
  assumes "(rtype, atype) \<in> set dispatch_table"
  shows "snd (dispatch sv True rtype atype rid res w) = w \<and>
         success (fst (dispatch sv True rtype atype rid res w)) \<and>
         skipped (fst (dispatch sv True rtype atype rid res w)) = skipped res \<and>
         prefix ''[DRY RUN]'' (message (fst (dispatch sv True rtype atype rid res w)))"
    (is "?P rtype atype")
proof -
  have 1: "?P ''ec2_instance'' ''stop''"
    by (simp add: dispatch_ec2_stop stop_ec2_instance_def)
  have 2: "?P ''ec2_instance'' ''terminate''"
    by (simp add: dispatch_ec2_terminate terminate_ec2_instance_def)
  have 3: "?P ''ebs_volume'' ''snapshot_and_delete''"
    by (simp add: dispatch_ebs_snapshot_and_delete snapshot_and_delete_volume_def)
  have 4: "?P ''ebs_volume'' ''delete''"
    by (simp add: dispatch_ebs_delete delete_volume_def)
  have 5: "?P ''elastic_ip'' ''release''"
    by (simp add: dispatch_eip_release release_elastic_ip_def)
  have 6: "?P ''snapshot'' ''delete''"
    by (simp add: dispatch_snapshot_delete delete_snapshot_def)
  have 7: "?P ''ami'' ''deregister''"
    by (simp add: dispatch_ami_deregister deregister_ami_def)
  have 8: "?P ''load_balancer'' ''delete''"
    by (simp add: dispatch_lb_delete delete_load_balancer_def)
  from dispatch_table_cases [OF assms] 1 2 3 4 5 6 7 8 show ?thesis
    by blast
qed

lemma grows_refl: "grows w w"
  by (simp add: grows_def)

lemma grows_trans: "grows w w1 \<Longrightarrow> grows w1 w2 \<Longrightarrow> grows w w2"
  by (auto simp: grows_def)

lemma grows_invoke_after:
  "grows w w1 \<Longrightarrow> service_call c \<Longrightarrow> grows w (w1\<lparr>calls := calls w1 @ [c]\<rparr>)"
  by (auto simp: grows_def)

lemma grows_append: "list_all service_call cs \<Longrightarrow> grows w (w\<lparr>calls := calls w @ cs\<rparr>)"
  by (simp add: grows_def)

lemma grows_snapshot_mappings: "grows w (snd (snapshot_mappings sv i bdms w))"
proof (induction bdms arbitrary: w)
  case Nil
  show ?case by (simp add: grows_refl)
next
  case (Cons b bdms)
  show ?case
  proof (cases b)
    case None
    then show ?thesis using Cons.IH by simp
  next
    case (Some v)
    let ?c = "CreateSnapshot v (''Pre-termination snapshot of '' @ i)"
    let ?w1 = "w\<lparr>calls := calls w @ [?c]\<rparr>"
    have g1: "grows w ?w1"
      by (rule grows_invoke_after [OF grows_refl]) simp
    show ?thesis
    proof (cases "fails sv (calls w) ?c")
      case None
      with Some have "snd (snapshot_mappings sv i (b # bdms) w) =
                        snd (snapshot_mappings sv i bdms ?w1)"
        by (simp add: invoke_def)
      with grows_trans [OF g1 Cons.IH [of ?w1]] show ?thesis by simp
    next
      case (Some e)
      with \<open>b = Some v\<close> have "snd (snapshot_mappings sv i (b # bdms) w) = ?w1"
        by (simp add: invoke_def)
      with g1 show ?thesis by simp
    qed
  qed
qed


lemma live_ok_unchanged: "live_ok res w (res, w)"
  by (simp add: live_ok_def grows_refl)

lemma live_stop: "live_ok res w (stop_ec2_instance sv False rid res w)"
  by (simp add: live_ok_def stop_ec2_instance_def invoke_def grows_invoke_after grows_refl
      split: option.split)

lemma live_delete_volume: "live_ok res w (delete_volume sv False rid res w)"
  by (simp add: live_ok_def delete_volume_def invoke_def grows_invoke_after grows_refl
      split: option.split)

lemma live_release: "live_ok res w (release_elastic_ip sv False rid res w)"
  by (simp add: live_ok_def release_elastic_ip_def invoke_def grows_invoke_after grows_refl
      split: option.split)

lemma live_delete_snapshot: "live_ok res w (delete_snapshot sv False rid res w)"
  by (simp add: live_ok_def delete_snapshot_def invoke_def grows_invoke_after grows_refl
      split: option.split)

lemma live_deregister: "live_ok res w (deregister_ami sv False rid res w)"
  by (simp add: live_ok_def deregister_ami_def invoke_def grows_invoke_after grows_refl
      split: option.split)

lemma live_delete_lb: "live_ok res w (delete_load_balancer sv False rid res w)"
  by (simp add: live_ok_def delete_load_balancer_def invoke_def grows_invoke_after grows_refl
      split: option.split)

lemma live_snapshot_and_delete:
  "live_ok res w (snapshot_and_delete_volume sv False rid res w)"
  by (simp add: live_ok_def snapshot_and_delete_volume_def invoke_def Let_def
      grows_append split: option.split)

lemma live_terminate: "live_ok res w (terminate_ec2_instance sv False rid res w)"
proof -
  let ?w1 = "w\<lparr>calls := calls w @ [DescribeInstances rid]\<rparr>"
  have g1: "grows w ?w1"
    by (rule grows_invoke_after [OF grows_refl]) simp
  show ?thesis
  proof (cases "fails sv (calls w) (DescribeInstances rid)")
    case (Some e)
    then show ?thesis
      using g1 by (simp add: live_ok_def terminate_ec2_instance_def invoke_def)
  next
    case None
    show ?thesis
    proof (cases "first_instance (described sv (calls w) rid)")
      case (Inl e)
      with None show ?thesis
        using g1 by (simp add: live_ok_def terminate_ec2_instance_def invoke_def)
    next
      case (Inr inst)
      obtain x w2 where sm: "snapshot_mappings sv rid inst ?w1 = (x, w2)"
        by (cases "snapshot_mappings sv rid inst ?w1")
      from grows_snapshot_mappings [of ?w1 sv rid inst] sm have "grows ?w1 w2"
        by simp
      with g1 have g2: "grows w w2"
        by (rule grows_trans)
      then have g3: "grows w (w2\<lparr>calls := calls w2 @ [TerminateInstances rid]\<rparr>)"
        by (rule grows_invoke_after) simp
      from None Inr sm g2 g3 show ?thesis
        by (simp add: live_ok_def terminate_ec2_instance_def invoke_def split: option.split)
    qed
  qed
qed

lemma dispatch_live: "live_ok res w (dispatch sv False rtype atype rid res w)"
  by (simp add: dispatch_def live_ok_unchanged live_stop live_terminate live_snapshot_and_delete
      live_delete_volume live_release live_delete_snapshot live_deregister live_delete_lb)
    (simp add: live_ok_def grows_refl)


lemma status_completed: "status_of r = ''completed'' \<Longrightarrow> success r \<and> \<not> skipped r"
  by (simp add: status_of_def split: if_splits)

lemma execute_live_marker:
  assumes ex: "execute_cleanup_action sv False a w = (r, w')"
    and u: "UpdateItem aid sd ''completed'' t m \<in> set (new_calls w w')"
  shows "\<not> prefix ''[DRY RUN]'' m"
proof -
  obtain r1 w1 where d: "dispatch sv False (resource_type a) (action_type a) (resource_id a)
      (initial_result a) w = (r1, w1)"
    by (cases "dispatch sv False (resource_type a) (action_type a) (resource_id a)
      (initial_result a) w")
  let ?u = "UpdateItem (action_id a) (scheduled_date_of (action_id a)) (status_of r1)
              (clock sv (clock_reads w1)) (message r1)"
  from dispatch_live [of "initial_result a" w sv "resource_type a" "action_type a" "resource_id a"] d
  have g: "grows w w1" and s: "success r1 \<longrightarrow> \<not> prefix ''[DRY RUN]'' (message r1)"
    by (simp_all add: live_ok_def initial_result_def)
  from g obtain cs where cs: "calls w1 = calls w @ cs" "list_all service_call cs"
    by (auto simp: grows_def)
  from ex d have "calls w' = calls w1 @ [?u]"
    by (auto simp: execute_cleanup_action_def update_action_status_eq split: option.splits)
  with cs have "new_calls w w' = cs @ [?u]"
    by (simp add: new_calls_def)
  with u cs(2) have "UpdateItem aid sd ''completed'' t m = ?u"
    by (auto simp: list_all_iff)
  then have "status_of r1 = ''completed''" and "m = message r1"
    by simp_all
  with s show ?thesis
    by (simp add: status_completed)
qed

section \<open>Cleanup executor: the status write and the dry run\<close>

lemma update_action_status_fst:
  "fst (update_action_status sv aid r w) = fails sv (calls w) (status_write sv aid r w)"
  by (simp add: update_action_status_eq status_write_def)

lemma update_action_status_calls:
  "calls (snd (update_action_status sv aid r w)) = calls w @ [status_write sv aid r w]"
  by (simp add: update_action_status_eq status_write_def)

lemma update_action_status_table:
  "actions_table (snd (update_action_status sv aid r w)) =
     (if fails sv (calls w) (status_write sv aid r w) = None
      then update_item (actions_table w) (aid, scheduled_date_of aid) (status_of r)
             (clock sv (clock_reads w)) (message r)
      else actions_table w)"
  by (simp add: update_action_status_eq status_write_def)

lemma update_action_status_clock:
  "clock_reads (snd (update_action_status sv aid r w)) = Suc (clock_reads w)"
  by (simp add: update_action_status_eq)

lemma execute_cleanup_action_eq:
  assumes "dispatch sv d (resource_type a) (action_type a) (resource_id a)
             (initial_result a) w = (r1, w1)"
  shows "execute_cleanup_action sv d a w =
           ((case fails sv (calls w1) (status_write sv (action_id a) r1 w1) of
               None \<Rightarrow> r1
             | Some e \<Rightarrow> r1\<lparr>message := e\<rparr>),
            snd (update_action_status sv (action_id a) r1 w1))"
proof (cases "update_action_status sv (action_id a) r1 w1")
  case (Pair x w2)
  with update_action_status_fst [of sv "action_id a" r1 w1]
  have "x = fails sv (calls w1) (status_write sv (action_id a) r1 w1)"
    by simp
  with Pair assms show ?thesis
    by (simp add: execute_cleanup_action_def split: option.split)
qed

lemma stored_eq: "stored w k f = (case actions_table w k of None \<Rightarrow> None | Some it \<Rightarrow> it f)"
  by (simp add: stored_def)

lemma stored_written:
  assumes "fails sv (calls w) (status_write sv aid r w) = None"
  shows "stored (snd (update_action_status sv aid r w)) (aid, scheduled_date_of aid) ''status'' =
           Some (AttrS (status_of r))"
    and "stored (snd (update_action_status sv aid r w)) (aid, scheduled_date_of aid)
           ''result_message'' = Some (AttrS (message r))"
    and "stored (snd (update_action_status sv aid r w)) (aid, scheduled_date_of aid)
           ''executed_at'' = Some (AttrS (clock sv (clock_reads w)))"
  using assms
  by (simp_all add: stored_eq update_action_status_table update_item_def Let_def)


lemma new_calls_append: "calls w' = calls w @ cs \<Longrightarrow> new_calls w w' = cs"
  by (simp add: new_calls_def)

lemma execute_dry_run:
  assumes t: "(resource_type a, action_type a) \<in> set dispatch_table"
    and d: "dispatch sv True (resource_type a) (action_type a) (resource_id a)
              (initial_result a) w = (r1, w1)"
    and ex: "execute_cleanup_action sv True a w = (r, w')"
  shows "w1 = w" and "prefix ''[DRY RUN]'' (message r1)" and "status_of r1 = ''completed''"
    and "success r"
    and "new_calls w w' = [status_write sv (action_id a) r1 w]"
    and "fails sv (calls w) (status_write sv (action_id a) r1 w) = None \<Longrightarrow>
         stored w' (action_id a, scheduled_date_of (action_id a)) ''status'' =
           Some (AttrS ''completed'') \<and>
         stored w' (action_id a, scheduled_date_of (action_id a)) ''result_message'' =
           Some (AttrS (message r1))"
proof -
  from dispatch_dry_run [OF t, of sv "resource_id a" "initial_result a" w] d
  show w1: "w1 = w" and p: "prefix ''[DRY RUN]'' (message r1)"
    by simp_all
  from dispatch_dry_run [OF t, of sv "resource_id a" "initial_result a" w] d
  have s: "success r1" and k: "\<not> skipped r1"
    by (simp_all add: initial_result_def)
  from s k show st: "status_of r1 = ''completed''"
    by (simp add: status_of_def)
  from execute_cleanup_action_eq [OF d] ex
  have r: "r = (case fails sv (calls w1) (status_write sv (action_id a) r1 w1) of
               None \<Rightarrow> r1 | Some e \<Rightarrow> r1\<lparr>message := e\<rparr>)"
    and w': "w' = snd (update_action_status sv (action_id a) r1 w1)"
    by simp_all
  from r s show "success r"
    by (simp split: option.split)
  from w' w1 have "calls w' = calls w @ [status_write sv (action_id a) r1 w]"
    by (simp add: update_action_status_calls)
  then show "new_calls w w' = [status_write sv (action_id a) r1 w]"
    by (rule new_calls_append)
  assume "fails sv (calls w) (status_write sv (action_id a) r1 w) = None"
  from stored_written(1,2) [OF this] w' w1 st
  show "stored w' (action_id a, scheduled_date_of (action_id a)) ''status'' =
           Some (AttrS ''completed'') \<and>
         stored w' (action_id a, scheduled_date_of (action_id a)) ''result_message'' =
           Some (AttrS (message r1))"
    by simp
qed

text \<open>
  C1. A pending action whose pair of resource type and action type has a handler, run
  with \<^verbatim>\<open>DRY_RUN\<close> set: the result has \<^verbatim>\<open>success = True\<close>; the only call made is the write
  of the status to the actions table, so no call that stops, terminates, deletes,
  releases or deregisters a resource is made; the message written starts with
  \<^verbatim>\<open>[DRY RUN]\<close>, and when the write does not raise the stored item has status
  \<^verbatim>\<open>completed\<close> and that message. No live run of the action writes a \<^verbatim>\<open>completed\<close> status
  with a message that starts with the marker, so the two successes differ in the table.
\<close>

theorem dry_run_action_simulated:
  assumes "(resource_type a, action_type a) \<in> set dispatch_table"
    and "execute_cleanup_action sv True a w = (r, w')"
  shows "success r \<and>
         (\<forall>c \<in> set (new_calls w w'). \<not> destructive c) \<and>
         (\<exists>m. prefix ''[DRY RUN]'' m \<and>
              new_calls w w' =
                [UpdateItem (action_id a) (scheduled_date_of (action_id a)) ''completed''
                   (clock sv (clock_reads w)) m] \<and>
              (fails sv (calls w)
                 (UpdateItem (action_id a) (scheduled_date_of (action_id a)) ''completed''
                    (clock sv (clock_reads w)) m) = None \<longrightarrow>
               stored w' (action_id a, scheduled_date_of (action_id a)) ''status'' =
                 Some (AttrS ''completed'') \<and>
               stored w' (action_id a, scheduled_date_of (action_id a)) ''result_message'' =
                 Some (AttrS m))) \<and>
         (\<forall>sv2 w2 r2 w2' aid sd t m2.
            execute_cleanup_action sv2 False a w2 = (r2, w2') \<longrightarrow>
            UpdateItem aid sd ''completed'' t m2 \<in> set (new_calls w2 w2') \<longrightarrow>
            \<not> prefix ''[DRY RUN]'' m2)"
proof -
  obtain r1 w1 where d: "dispatch sv True (resource_type a) (action_type a) (resource_id a)
      (initial_result a) w = (r1, w1)"
    by (cases "dispatch sv True (resource_type a) (action_type a) (resource_id a)
      (initial_result a) w")
  note f = execute_dry_run [OF assms(1) d assms(2)]
  let ?u = "UpdateItem (action_id a) (scheduled_date_of (action_id a)) ''completed''
              (clock sv (clock_reads w)) (message r1)"
  from f(3) have u: "status_write sv (action_id a) r1 w = ?u"
    by (simp add: status_write_def)
  with f(5) have n: "new_calls w w' = [?u]"
    by simp
  have c1: "success r"
    by (rule f(4))
  from n have c2: "\<forall>c \<in> set (new_calls w w'). \<not> destructive c"
    by simp
  have c3: "prefix ''[DRY RUN]'' (message r1) \<and> new_calls w w' = [?u] \<and>
        (fails sv (calls w) ?u = None \<longrightarrow>
           stored w' (action_id a, scheduled_date_of (action_id a)) ''status'' =
             Some (AttrS ''completed'') \<and>
           stored w' (action_id a, scheduled_date_of (action_id a)) ''result_message'' =
             Some (AttrS (message r1)))"
    using f(2) n f(6) u by simp
  have c4: "\<forall>sv2 w2 r2 w2' aid sd t m2.
            execute_cleanup_action sv2 False a w2 = (r2, w2') \<longrightarrow>
            UpdateItem aid sd ''completed'' t m2 \<in> set (new_calls w2 w2') \<longrightarrow>
            \<not> prefix ''[DRY RUN]'' m2"
    by (intro allI impI) (rule execute_live_marker)
  from c3 have c3': "\<exists>m. prefix ''[DRY RUN]'' m \<and>
              new_calls w w' =
                [UpdateItem (action_id a) (scheduled_date_of (action_id a)) ''completed''
                   (clock sv (clock_reads w)) m] \<and>
              (fails sv (calls w)
                 (UpdateItem (action_id a) (scheduled_date_of (action_id a)) ''completed''
                    (clock sv (clock_reads w)) m) = None \<longrightarrow>
               stored w' (action_id a, scheduled_date_of (action_id a)) ''status'' =
                 Some (AttrS ''completed'') \<and>
               stored w' (action_id a, scheduled_date_of (action_id a)) ''result_message'' =
                 Some (AttrS m))"
    by (rule exI [of _ "message r1"])
  from c1 c2 c3' c4 show ?thesis
    by (intro conjI)
qed

section \<open>Cleanup executor: sample runs\<close>

lemma scheduled_date_of_sample: "scheduled_date_of ''2024-01-01-i-1'' = ''2024-01-01''"
  by (simp add: scheduled_date_of_def)

lemma sample_dispatch:
  "dispatch calm_services True ''ec2_instance'' ''stop'' ''i-1''
     (initial_result (action_of ''ec2_instance'' ''stop'' ''i-1'')) empty_world =
   (initial_result (action_of ''ec2_instance'' ''stop'' ''i-1'')
      \<lparr>success := True, message := ''[DRY RUN] Would stop instance i-1''\<rparr>, empty_world)"
  by (simp add: dispatch_ec2_stop stop_ec2_instance_def)

lemma sample_fields:
  "resource_type (action_of rt atp rid) = rt" "action_type (action_of rt atp rid) = atp"
  "resource_id (action_of rt atp rid) = rid" "action_id (action_of rt atp rid) = ''2024-01-01-'' @ rid"
  by (simp_all add: action_of_def)

lemma calm_fields:
  "fails calm_services cs c = None" "clock calm_services n = clock_at n"
  "described calm_services cs i = [[[Some ''vol-1'']]]"
  "created_snapshot calm_services cs v = ''snap-1''"
  by (simp_all add: calm_services_def)

lemma empty_world_fields:
  "calls empty_world = []" "clock_reads empty_world = 0" "actions_table empty_world k = None"
  by (simp_all add: empty_world_def)

lemma dry_run_stop_sample:
  "new_calls empty_world
     (snd (execute_cleanup_action calm_services True
        (action_of ''ec2_instance'' ''stop'' ''i-1'') empty_world)) =
   [UpdateItem ''2024-01-01-i-1'' ''2024-01-01'' ''completed'' ''2024-01-02T00:00:00''
      ''[DRY RUN] Would stop instance i-1'']"
proof -
  let ?a = "action_of ''ec2_instance'' ''stop'' ''i-1''"
  have d: "dispatch calm_services True (resource_type ?a) (action_type ?a) (resource_id ?a)
     (initial_result ?a) empty_world =
   (initial_result ?a\<lparr>success := True, message := ''[DRY RUN] Would stop instance i-1''\<rparr>,
    empty_world)"
    by (simp add: sample_fields sample_dispatch)
  have "status_write calm_services (action_id ?a)
          (initial_result ?a\<lparr>success := True, message := ''[DRY RUN] Would stop instance i-1''\<rparr>)
          empty_world =
        UpdateItem ''2024-01-01-i-1'' ''2024-01-01'' ''completed'' ''2024-01-02T00:00:00''
          ''[DRY RUN] Would stop instance i-1''"
    by (simp add: status_write_def sample_fields scheduled_date_of_sample status_of_def
        initial_result_def calm_fields empty_world_fields clock_at_def)
  then show ?thesis
    by (simp add: execute_cleanup_action_eq [OF d] update_action_status_calls new_calls_def
        empty_world_fields)
qed


theorem dry_run_action_simulated_witness:
  "(''ec2_instance'', ''stop'') \<in> set dispatch_table \<and>
   success (fst (execute_cleanup_action calm_services True
     (action_of ''ec2_instance'' ''stop'' ''i-1'') empty_world)) \<and>
   new_calls empty_world
     (snd (execute_cleanup_action calm_services True
        (action_of ''ec2_instance'' ''stop'' ''i-1'') empty_world)) =
   [UpdateItem ''2024-01-01-i-1'' ''2024-01-01'' ''completed'' ''2024-01-02T00:00:00''
      ''[DRY RUN] Would stop instance i-1''] \<and>
   stored (snd (execute_cleanup_action calm_services True
        (action_of ''ec2_instance'' ''stop'' ''i-1'') empty_world))
     (''2024-01-01-i-1'', ''2024-01-01'') ''result_message'' =
   Some (AttrS ''[DRY RUN] Would stop instance i-1'')"
proof -
  let ?a = "action_of ''ec2_instance'' ''stop'' ''i-1''"
  obtain r w' where ex: "execute_cleanup_action calm_services True ?a empty_world = (r, w')"
    by (cases "execute_cleanup_action calm_services True ?a empty_world")
  have t: "(''ec2_instance'', ''stop'') \<in> set dispatch_table"
    by (simp add: dispatch_table_def)
  then have t': "(resource_type ?a, action_type ?a) \<in> set dispatch_table"
    by (simp add: sample_fields)
  from dry_run_stop_sample ex
  have n: "new_calls empty_world w' =
      [UpdateItem ''2024-01-01-i-1'' ''2024-01-01'' ''completed'' ''2024-01-02T00:00:00''
         ''[DRY RUN] Would stop instance i-1'']"
    by simp
  note th = dry_run_action_simulated [OF t' ex]
  have s: "success r"
    by (rule th [THEN conjunct1])
  from th [THEN conjunct2, THEN conjunct2, THEN conjunct1]
  obtain m where m: "prefix ''[DRY RUN]'' m \<and>
              new_calls empty_world w' =
                [UpdateItem (action_id ?a) (scheduled_date_of (action_id ?a)) ''completed''
                   (clock calm_services (clock_reads empty_world)) m] \<and>
              (fails calm_services (calls empty_world)
                 (UpdateItem (action_id ?a) (scheduled_date_of (action_id ?a)) ''completed''
                    (clock calm_services (clock_reads empty_world)) m) = None \<longrightarrow>
               stored w' (action_id ?a, scheduled_date_of (action_id ?a)) ''status'' =
                 Some (AttrS ''completed'') \<and>
               stored w' (action_id ?a, scheduled_date_of (action_id ?a)) ''result_message'' =
                 Some (AttrS m))" ..
  from m [THEN conjunct2, THEN conjunct1] n
  have meq: "m = ''[DRY RUN] Would stop instance i-1''"
    by simp
  from m [THEN conjunct2, THEN conjunct2]
  have "stored w' (action_id ?a, scheduled_date_of (action_id ?a)) ''result_message'' =
          Some (AttrS m)"
    by (simp add: calm_fields)
  with meq have "stored w' (''2024-01-01-i-1'', ''2024-01-01'') ''result_message'' =
      Some (AttrS ''[DRY RUN] Would stop instance i-1'')"
    by (simp add: sample_fields scheduled_date_of_sample)
  with t s n ex show ?thesis
    by simp
qed

section \<open>Cleanup executor: a snapshot that fails\<close>

lemma execute_after_dispatch:
  assumes d: "dispatch sv dr (resource_type a) (action_type a) (resource_id a)
                (initial_result a) w = (r1, w1)"
    and ex: "execute_cleanup_action sv dr a w = (r, w')"
    and cs: "calls w1 = calls w @ cs"
  shows "new_calls w w' = cs @ [status_write sv (action_id a) r1 w1]"
    and "success r = success r1" and "skipped r = skipped r1"
    and "butlast (calls w') = calls w1"
    and "last (calls w') = status_write sv (action_id a) r1 w1"
    and "fails sv (calls w1) (status_write sv (action_id a) r1 w1) = None \<Longrightarrow>
         stored w' (action_id a, scheduled_date_of (action_id a)) ''status'' =
           Some (AttrS (status_of r1)) \<and>
         stored w' (action_id a, scheduled_date_of (action_id a)) ''result_message'' =
           Some (AttrS (message r1))"
proof -
  from execute_cleanup_action_eq [OF d] ex
  have r: "r = (case fails sv (calls w1) (status_write sv (action_id a) r1 w1) of
               None \<Rightarrow> r1 | Some e \<Rightarrow> r1\<lparr>message := e\<rparr>)"
    and w': "w' = snd (update_action_status sv (action_id a) r1 w1)"
    by simp_all
  from r show "success r = success r1" and "skipped r = skipped r1"
    by (simp_all split: option.split)
  from w' have c: "calls w' = calls w1 @ [status_write sv (action_id a) r1 w1]"
    by (simp add: update_action_status_calls)
  with cs show "new_calls w w' = cs @ [status_write sv (action_id a) r1 w1]"
    by (simp add: new_calls_def)
  from c show "butlast (calls w') = calls w1"
    and "last (calls w') = status_write sv (action_id a) r1 w1"
    by simp_all
  assume "fails sv (calls w1) (status_write sv (action_id a) r1 w1) = None"
  from stored_written(1,2) [OF this] w'
  show "stored w' (action_id a, scheduled_date_of (action_id a)) ''status'' =
           Some (AttrS (status_of r1)) \<and>
         stored w' (action_id a, scheduled_date_of (action_id a)) ''result_message'' =
           Some (AttrS (message r1))"
    by simp
qed

lemma snapshot_and_delete_create_fails:
  assumes "fails sv (calls w)
             (CreateSnapshot vid (''Pre-deletion snapshot of '' @ vid)) = Some e"
  shows "snapshot_and_delete_volume sv False vid res w =
           (res\<lparr>message := ''Failed to snapshot/delete volume: '' @ e\<rparr>,
            w\<lparr>calls := calls w @ [CreateSnapshot vid (''Pre-deletion snapshot of '' @ vid)]\<rparr>)"
  using assms by (simp add: snapshot_and_delete_volume_def invoke_def)

lemma snapshot_and_delete_wait_fails:
  assumes "fails sv (calls w)
             (CreateSnapshot vid (''Pre-deletion snapshot of '' @ vid)) = None"
    and "fails sv (calls w @ [CreateSnapshot vid (''Pre-deletion snapshot of '' @ vid)])
           (WaitSnapshotCompleted (created_snapshot sv (calls w) vid)) = Some e"
  shows "snapshot_and_delete_volume sv False vid res w =
           (res\<lparr>message := ''Failed to snapshot/delete volume: '' @ e\<rparr>,
            w\<lparr>calls := calls w @ [CreateSnapshot vid (''Pre-deletion snapshot of '' @ vid),
                                  WaitSnapshotCompleted (created_snapshot sv (calls w) vid)]\<rparr>)"
  using assms by (simp add: snapshot_and_delete_volume_def invoke_def Let_def)

lemma status_of_initial_message:
  "status_of (initial_result a\<lparr>message := m\<rparr>) = ''failed''"
  by (simp add: status_of_def initial_result_def)


lemma failed_snapshot_outcome:
  assumes d: "dispatch sv False (resource_type a) (action_type a) (resource_id a)
                (initial_result a) w =
              (initial_result a\<lparr>message := ''Failed to snapshot/delete volume: '' @ e\<rparr>,
               w\<lparr>calls := calls w @ cs\<rparr>)"
    and ex: "execute_cleanup_action sv False a w = (r, w')"
    and cs: "\<forall>v. DeleteVolume v \<notin> set cs"
  shows "(\<forall>v. DeleteVolume v \<notin> set (new_calls w w')) \<and> \<not> success r \<and> \<not> skipped r \<and>
         (\<exists>t m. last (calls w') =
                  UpdateItem (action_id a) (scheduled_date_of (action_id a)) ''failed'' t m \<and>
                prefix ''Failed to snapshot/delete volume: '' m) \<and>
         (fails sv (butlast (calls w')) (last (calls w')) = None \<longrightarrow>
            stored w' (action_id a, scheduled_date_of (action_id a)) ''status'' =
              Some (AttrS ''failed''))"
proof -
  let ?r1 = "initial_result a\<lparr>message := ''Failed to snapshot/delete volume: '' @ e\<rparr>"
  let ?w1 = "w\<lparr>calls := calls w @ cs\<rparr>"
  have c: "calls ?w1 = calls w @ cs"
    by simp
  note f = execute_after_dispatch [OF d ex c]
  have sw: "status_write sv (action_id a) ?r1 ?w1 =
              UpdateItem (action_id a) (scheduled_date_of (action_id a)) ''failed''
                (clock sv (clock_reads w)) (''Failed to snapshot/delete volume: '' @ e)"
    by (simp add: status_write_def status_of_initial_message)
  from f(1) cs sw have 1: "\<forall>v. DeleteVolume v \<notin> set (new_calls w w')"
    by simp
  from f(2) f(3) have 2: "\<not> success r" and 3: "\<not> skipped r"
    by (simp_all add: initial_result_def)
  from f(5) sw have "last (calls w') =
      UpdateItem (action_id a) (scheduled_date_of (action_id a)) ''failed''
        (clock sv (clock_reads w)) (''Failed to snapshot/delete volume: '' @ e) \<and>
      prefix ''Failed to snapshot/delete volume: '' (''Failed to snapshot/delete volume: '' @ e)"
    by simp
  then have 4: "\<exists>t m. last (calls w') =
                  UpdateItem (action_id a) (scheduled_date_of (action_id a)) ''failed'' t m \<and>
                prefix ''Failed to snapshot/delete volume: '' m"
    by (intro exI)
  have 5: "fails sv (butlast (calls w')) (last (calls w')) = None \<longrightarrow>
            stored w' (action_id a, scheduled_date_of (action_id a)) ''status'' =
              Some (AttrS ''failed'')"
    using f(4) f(5) f(6) by (simp add: status_of_initial_message)
  from 1 2 3 4 5 show ?thesis
    by (intro conjI)
qed

text \<open>
  C2. A \<^verbatim>\<open>snapshot_and_delete\<close> action on a volume in a live run, where the creation of
  the snapshot raises, or the creation returns and the wait for its completion raises:
  no \<^verbatim>\<open>delete_volume\<close> call is made, the result is neither a success nor skipped, the
  last call is the write of status \<^verbatim>\<open>failed\<close> with a message that tells the failure, and
  when that write does not raise the stored status is \<^verbatim>\<open>failed\<close>.
\<close>

theorem snapshot_failure_never_deletes:
  assumes rt: "resource_type a = ''ebs_volume''"
    and atp: "action_type a = ''snapshot_and_delete''"
    and ex: "execute_cleanup_action sv False a w = (r, w')"
    and fl: "fails sv (calls w)
               (CreateSnapshot (resource_id a) (''Pre-deletion snapshot of '' @ resource_id a))
               \<noteq> None \<or>
             fails sv
               (calls w @
                  [CreateSnapshot (resource_id a) (''Pre-deletion snapshot of '' @ resource_id a)])
               (WaitSnapshotCompleted (created_snapshot sv (calls w) (resource_id a)))
               \<noteq> None"
  shows "(\<forall>v. DeleteVolume v \<notin> set (new_calls w w')) \<and> \<not> success r \<and> \<not> skipped r \<and>
         (\<exists>t m. last (calls w') =
                  UpdateItem (action_id a) (scheduled_date_of (action_id a)) ''failed'' t m \<and>
                prefix ''Failed to snapshot/delete volume: '' m) \<and>
         (fails sv (butlast (calls w')) (last (calls w')) = None \<longrightarrow>
            stored w' (action_id a, scheduled_date_of (action_id a)) ''status'' =
              Some (AttrS ''failed''))"
proof -
  let ?cs = "CreateSnapshot (resource_id a) (''Pre-deletion snapshot of '' @ resource_id a)"
  let ?wt = "WaitSnapshotCompleted (created_snapshot sv (calls w) (resource_id a))"
  have d: "dispatch sv False (resource_type a) (action_type a) (resource_id a)
             (initial_result a) w =
           snapshot_and_delete_volume sv False (resource_id a) (initial_result a) w"
    by (simp add: rt atp dispatch_ebs_snapshot_and_delete)
  show ?thesis
  proof (cases "fails sv (calls w) ?cs")
    case (Some e)
    have nd: "\<forall>v. DeleteVolume v \<notin> set [?cs]"
      by simp
    from d snapshot_and_delete_create_fails [OF Some, of "initial_result a"]
    have d': "dispatch sv False (resource_type a) (action_type a) (resource_id a)
                (initial_result a) w =
              (initial_result a\<lparr>message := ''Failed to snapshot/delete volume: '' @ e\<rparr>,
               w\<lparr>calls := calls w @ [?cs]\<rparr>)"
      by simp
    show ?thesis
      by (rule failed_snapshot_outcome [OF d' ex nd])
  next
    case None
    with fl obtain e where e: "fails sv (calls w @ [?cs]) ?wt = Some e"
      by auto
    have nd: "\<forall>v. DeleteVolume v \<notin> set [?cs, ?wt]"
      by simp
    from d snapshot_and_delete_wait_fails [OF None e, of "initial_result a"]
    have d': "dispatch sv False (resource_type a) (action_type a) (resource_id a)
                (initial_result a) w =
              (initial_result a\<lparr>message := ''Failed to snapshot/delete volume: '' @ e\<rparr>,
               w\<lparr>calls := calls w @ [?cs, ?wt]\<rparr>)"
      by simp
    show ?thesis
      by (rule failed_snapshot_outcome [OF d' ex nd])
  qed
qed

lemma split_on_not_empty: "split_on c xs \<noteq> []"
  by (induction xs) (auto split: list.split)

lemma split_on_Cons:
  "split_on c (x # xs) =
     (if x = c then [] # split_on c xs
      else (x # hd (split_on c xs)) # tl (split_on c xs))"
  using split_on_not_empty [of c xs] by (cases "split_on c xs") simp_all

lemma scheduled_date_of_action_of: "scheduled_date_of (''2024-01-01-'' @ rid) = ''2024-01-01''"
  by (simp add: scheduled_date_of_def split_on_Cons del: split_on.simps)


lemma no_snapshot_fields:
  "fails no_snapshot_services cs c = refuses_snapshots c"
  "clock no_snapshot_services n = clock_at n"
  by (simp_all add: no_snapshot_services_def calm_services_def)

theorem snapshot_failure_never_deletes_witness:
  "\<not> success (fst (execute_cleanup_action no_snapshot_services False
       (action_of ''ebs_volume'' ''snapshot_and_delete'' ''vol-1'') empty_world)) \<and>
   DeleteVolume ''vol-1'' \<notin> set (new_calls empty_world
     (snd (execute_cleanup_action no_snapshot_services False
       (action_of ''ebs_volume'' ''snapshot_and_delete'' ''vol-1'') empty_world))) \<and>
   stored (snd (execute_cleanup_action no_snapshot_services False
       (action_of ''ebs_volume'' ''snapshot_and_delete'' ''vol-1'') empty_world))
     (''2024-01-01-vol-1'', ''2024-01-01'') ''status'' = Some (AttrS ''failed'')"
proof -
  let ?a = "action_of ''ebs_volume'' ''snapshot_and_delete'' ''vol-1''"
  obtain r w' where ex: "execute_cleanup_action no_snapshot_services False ?a empty_world = (r, w')"
    by (cases "execute_cleanup_action no_snapshot_services False ?a empty_world")
  have rt: "resource_type ?a = ''ebs_volume''" and atp: "action_type ?a = ''snapshot_and_delete''"
    by (simp_all add: sample_fields)
  have fl: "fails no_snapshot_services (calls empty_world)
               (CreateSnapshot (resource_id ?a) (''Pre-deletion snapshot of '' @ resource_id ?a))
               \<noteq> None \<or>
             fails no_snapshot_services
               (calls empty_world @
                  [CreateSnapshot (resource_id ?a) (''Pre-deletion snapshot of '' @ resource_id ?a)])
               (WaitSnapshotCompleted
                  (created_snapshot no_snapshot_services (calls empty_world) (resource_id ?a)))
               \<noteq> None"
    by (simp add: no_snapshot_fields)
  note th = snapshot_failure_never_deletes [OF rt atp ex fl]
  from th [THEN conjunct1] have 1: "DeleteVolume ''vol-1'' \<notin> set (new_calls empty_world w')"
    by simp
  from th [THEN conjunct2, THEN conjunct1] have 2: "\<not> success r" .
  from th [THEN conjunct2, THEN conjunct2, THEN conjunct2, THEN conjunct1]
  obtain t m where "last (calls w') =
      UpdateItem (action_id ?a) (scheduled_date_of (action_id ?a)) ''failed'' t m \<and>
      prefix ''Failed to snapshot/delete volume: '' m"
    by (elim exE)
  then have "fails no_snapshot_services (butlast (calls w')) (last (calls w')) = None"
    by (simp add: no_snapshot_fields)
  with th [THEN conjunct2, THEN conjunct2, THEN conjunct2, THEN conjunct2]
  have "stored w' (action_id ?a, scheduled_date_of (action_id ?a)) ''status'' =
          Some (AttrS ''failed'')"
    by simp
  then have 3: "stored w' (''2024-01-01-vol-1'', ''2024-01-01'') ''status'' =
          Some (AttrS ''failed'')"
    using scheduled_date_of_action_of [of "''vol-1''"] by (simp add: sample_fields)
  from 1 2 3 ex show ?thesis
    by simp
qed

section \<open>Cleanup executor: terminating an instance\<close>

lemma terminate_live_sample:
  "terminate_ec2_instance calm_services False ''i-1'' res empty_world =
     (res\<lparr>success := True, message := ''Successfully terminated instance i-1''\<rparr>,
      empty_world\<lparr>calls :=
        [DescribeInstances ''i-1'',
         CreateSnapshot ''vol-1'' ''Pre-termination snapshot of i-1'',
         TerminateInstances ''i-1'']\<rparr>)"
  by (simp add: terminate_ec2_instance_def invoke_def calm_fields empty_world_fields
      first_instance_def)

lemma status_of_success: "status_of (initial_result a\<lparr>success := True, message := m\<rparr>) = ''completed''"
  by (simp add: status_of_def initial_result_def)

text \<open>
  C3. The claim asks that a live terminate awaits the completion of every snapshot before
  the terminate call. On services where no call raises and the instance has one volume
  attached, the calls of \<^verbatim>\<open>terminate_ec2_instance\<close> are: describe the instance, create
  the snapshot, terminate the instance. No wait for the snapshot stands between the last
  two, and the action is recorded as completed. (\<^verbatim>\<open>snapshot_and_delete_volume\<close> does wait,
  with the waiter \<^verbatim>\<open>snapshot_completed\<close>, before it deletes.)
\<close>

theorem terminate_does_not_await_snapshots:
  "new_calls empty_world
     (snd (execute_cleanup_action calm_services False
        (action_of ''ec2_instance'' ''terminate'' ''i-1'') empty_world)) =
   [DescribeInstances ''i-1'',
    CreateSnapshot ''vol-1'' ''Pre-termination snapshot of i-1'',
    TerminateInstances ''i-1'',
    UpdateItem ''2024-01-01-i-1'' ''2024-01-01'' ''completed'' ''2024-01-02T00:00:00''
      ''Successfully terminated instance i-1''] \<and>
   success (fst (execute_cleanup_action calm_services False
        (action_of ''ec2_instance'' ''terminate'' ''i-1'') empty_world))"
proof -
  let ?a = "action_of ''ec2_instance'' ''terminate'' ''i-1''"
  let ?r1 = "initial_result ?a\<lparr>success := True,
               message := ''Successfully terminated instance i-1''\<rparr>"
  let ?cs = "[DescribeInstances ''i-1'',
         CreateSnapshot ''vol-1'' ''Pre-termination snapshot of i-1'',
         TerminateInstances ''i-1'']"
  let ?w1 = "empty_world\<lparr>calls := ?cs\<rparr>"
  obtain r w' where ex: "execute_cleanup_action calm_services False ?a empty_world = (r, w')"
    by (cases "execute_cleanup_action calm_services False ?a empty_world")
  have d: "dispatch calm_services False (resource_type ?a) (action_type ?a) (resource_id ?a)
             (initial_result ?a) empty_world = (?r1, ?w1)"
    by (simp add: sample_fields dispatch_ec2_terminate terminate_live_sample)
  have c: "calls ?w1 = calls empty_world @ ?cs"
    by (simp add: empty_world_fields)
  note f = execute_after_dispatch [OF d ex c]
  have sw: "status_write calm_services (action_id ?a) ?r1 ?w1 =
      UpdateItem ''2024-01-01-i-1'' ''2024-01-01'' ''completed'' ''2024-01-02T00:00:00''
        ''Successfully terminated instance i-1''"
    using scheduled_date_of_action_of [of "''i-1''"]
    by (simp add: status_write_def status_of_success sample_fields calm_fields
        empty_world_fields clock_at_def)
  from f(1) sw have "new_calls empty_world w' = ?cs @
      [UpdateItem ''2024-01-01-i-1'' ''2024-01-01'' ''completed'' ''2024-01-02T00:00:00''
        ''Successfully terminated instance i-1'']"
    by simp
  moreover from f(2) have "success r"
    by simp
  ultimately show ?thesis
    using ex by simp
qed

text \<open>
  For all services, worlds and instances, in a dry run and in a live one, the handler
  never calls the waiter: the calls it adds hold no wait for a snapshot.
\<close>

lemma snapshot_mappings_never_wait:
  "\<exists>cs. calls (snd (snapshot_mappings sv i bdms w)) = calls w @ cs \<and>
        (\<forall>s. WaitSnapshotCompleted s \<notin> set cs)"
proof (induction bdms arbitrary: w)
  case Nil
  show ?case by simp
next
  case (Cons b bdms)
  show ?case
  proof (cases b)
    case None
    then show ?thesis using Cons.IH [of w] by simp
  next
    case (Some v)
    let ?c = "CreateSnapshot v (''Pre-termination snapshot of '' @ i)"
    let ?w1 = "w\<lparr>calls := calls w @ [?c]\<rparr>"
    show ?thesis
    proof (cases "fails sv (calls w) ?c")
      case None
      with Some have e: "snd (snapshot_mappings sv i (b # bdms) w) =
                        snd (snapshot_mappings sv i bdms ?w1)"
        by (simp add: invoke_def)
      from Cons.IH [of ?w1] obtain cs where
        "calls (snd (snapshot_mappings sv i bdms ?w1)) = calls ?w1 @ cs"
        "\<forall>s. WaitSnapshotCompleted s \<notin> set cs"
        by blast
      with e have "calls (snd (snapshot_mappings sv i (b # bdms) w)) = calls w @ (?c # cs) \<and>
                   (\<forall>s. WaitSnapshotCompleted s \<notin> set (?c # cs))"
        by simp
      then show ?thesis by (rule exI)
    next
      case (Some e)
      with \<open>b = Some v\<close> have "calls (snd (snapshot_mappings sv i (b # bdms) w)) = calls w @ [?c] \<and>
                   (\<forall>s. WaitSnapshotCompleted s \<notin> set [?c])"
        by (simp add: invoke_def)
      then show ?thesis by (rule exI)
    qed
  qed
qed

lemma terminate_never_waits:
  "\<exists>cs. calls (snd (terminate_ec2_instance sv dr rid res w)) = calls w @ cs \<and>
        (\<forall>s. WaitSnapshotCompleted s \<notin> set cs)"
proof (cases dr)
  case True
  then have "calls (snd (terminate_ec2_instance sv dr rid res w)) = calls w @ [] \<and>
             (\<forall>s. WaitSnapshotCompleted s \<notin> set [])"
    by (simp add: terminate_ec2_instance_def)
  then show ?thesis by (rule exI)
next
  case False
  let ?d = "DescribeInstances rid"
  let ?w1 = "w\<lparr>calls := calls w @ [?d]\<rparr>"
  have one: "calls ?w1 = calls w @ [?d] \<and> (\<forall>s. WaitSnapshotCompleted s \<notin> set [?d])"
    by simp
  show ?thesis
  proof (cases "fails sv (calls w) ?d")
    case (Some e)
    with False have "snd (terminate_ec2_instance sv dr rid res w) = ?w1"
      by (simp add: terminate_ec2_instance_def invoke_def)
    with one show ?thesis by (intro exI [of _ "[?d]"]) simp
  next
    case None
    show ?thesis
    proof (cases "first_instance (described sv (calls w) rid)")
      case (Inl e)
      with None False have "snd (terminate_ec2_instance sv dr rid res w) = ?w1"
        by (simp add: terminate_ec2_instance_def invoke_def)
      with one show ?thesis by (intro exI [of _ "[?d]"]) simp
    next
      case (Inr inst)
      obtain x w2 where sm: "snapshot_mappings sv rid inst ?w1 = (x, w2)"
        by (cases "snapshot_mappings sv rid inst ?w1")
      from snapshot_mappings_never_wait [of sv rid inst ?w1] sm
      obtain cs where cs: "calls w2 = calls w @ ?d # cs" "\<forall>s. WaitSnapshotCompleted s \<notin> set cs"
        by auto
      let ?t = "TerminateInstances rid"
      from None Inr sm False
      have "snd (terminate_ec2_instance sv dr rid res w) = w2 \<or>
            snd (terminate_ec2_instance sv dr rid res w) = w2\<lparr>calls := calls w2 @ [?t]\<rparr>"
        by (simp add: terminate_ec2_instance_def invoke_def split: option.split)
      then show ?thesis
      proof
        assume "snd (terminate_ec2_instance sv dr rid res w) = w2"
        with cs show ?thesis by (intro exI [of _ "?d # cs"]) simp
      next
        assume "snd (terminate_ec2_instance sv dr rid res w) = w2\<lparr>calls := calls w2 @ [?t]\<rparr>"
        with cs show ?thesis by (intro exI [of _ "?d # cs @ [?t]"]) simp
      qed
    qed
  qed
qed

section \<open>Cleanup executor: pairs without a handler\<close>

lemma unsupported_resource_type:
  "rtype \<notin> set supported_resource_types \<Longrightarrow>
     dispatch sv dr rtype atype rid res w =
       (res\<lparr>skipped := True, message := ''Unsupported resource type: '' @ rtype\<rparr>, w)"
  by (simp add: supported_resource_types_def dispatch_def)

lemma unmatched_action_type:
  assumes "rtype \<in> set supported_resource_types" and "(rtype, atype) \<notin> set dispatch_table"
  shows "dispatch sv dr rtype atype rid res w = (res, w)"
proof -
  from assms(1) have "rtype = ''ec2_instance'' \<or> rtype = ''ebs_volume'' \<or>
      rtype = ''elastic_ip'' \<or> rtype = ''snapshot'' \<or> rtype = ''ami'' \<or>
      rtype = ''load_balancer''"
    by (simp add: supported_resource_types_def)
  then show ?thesis
  proof (elim disjE)
    assume r: "rtype = ''ec2_instance''"
    with assms(2) have "atype \<noteq> ''stop''" "atype \<noteq> ''terminate''"
      by (simp_all add: dispatch_table_def)
    with r show ?thesis by (simp add: dispatch_def)
  next
    assume r: "rtype = ''ebs_volume''"
    with assms(2) have "atype \<noteq> ''snapshot_and_delete''" "atype \<noteq> ''delete''"
      by (simp_all add: dispatch_table_def)
    with r show ?thesis by (simp add: dispatch_def)
  next
    assume r: "rtype = ''elastic_ip''"
    with assms(2) have "atype \<noteq> ''release''"
      by (simp_all add: dispatch_table_def)
    with r show ?thesis by (simp add: dispatch_def)
  next
    assume r: "rtype = ''snapshot''"
    with assms(2) have "atype \<noteq> ''delete''"
      by (simp_all add: dispatch_table_def)
    with r show ?thesis by (simp add: dispatch_def)
  next
    assume r: "rtype = ''ami''"
    with assms(2) have "atype \<noteq> ''deregister''"
      by (simp_all add: dispatch_table_def)
    with r show ?thesis by (simp add: dispatch_def)
  next
    assume r: "rtype = ''load_balancer''"
    with assms(2) have "atype \<noteq> ''delete''"
      by (simp_all add: dispatch_table_def)
    with r show ?thesis by (simp add: dispatch_def)
  qed
qed

lemma status_of_initial: "status_of (initial_result a) = ''failed''"
  by (simp add: status_of_def initial_result_def)

lemma status_of_skipped: "status_of (r\<lparr>skipped := True, message := m\<rparr>) = ''skipped''"
  by (simp add: status_of_def)

lemma initial_result_fields:
  "message (initial_result a) = []" "\<not> success (initial_result a)"
  "\<not> skipped (initial_result a)"
  by (simp_all add: initial_result_def)

lemma unsupported_resource_type_skipped:
  assumes u: "resource_type a \<notin> set supported_resource_types"
    and ex: "execute_cleanup_action sv dr a w = (r, w')"
  shows "skipped r \<and> \<not> success r \<and>
         new_calls w w' =
           [UpdateItem (action_id a) (scheduled_date_of (action_id a)) ''skipped''
              (clock sv (clock_reads w)) (''Unsupported resource type: '' @ resource_type a)]"
proof -
  let ?r1 = "initial_result a\<lparr>skipped := True,
               message := ''Unsupported resource type: '' @ resource_type a\<rparr>"
  have d: "dispatch sv dr (resource_type a) (action_type a) (resource_id a)
             (initial_result a) w = (?r1, w)"
    by (rule unsupported_resource_type [OF u])
  have c: "calls w = calls w @ []"
    by simp
  note f = execute_after_dispatch [OF d ex c]
  from f(1) f(2) f(3) show ?thesis
    by (simp add: status_write_def status_of_skipped initial_result_fields)
qed

text \<open>
  C4. The claim asks that every pair without a handler is recorded as skipped with a
  message. That holds for a resource type the chain does not know (the last \<^verbatim>\<open>else\<close>).
  For a known resource type with an action type that has no branch, here an
  \<^verbatim>\<open>ec2_instance\<close> with \<^verbatim>\<open>delete\<close>, no branch runs: the result keeps \<^verbatim>\<open>success\<close> and
  \<^verbatim>\<open>skipped\<close> false and the empty message, and the status written and stored is
  \<^verbatim>\<open>failed\<close> with an empty message.
\<close>

theorem unmatched_action_type_recorded_failed:
  "''ec2_instance'' \<in> set supported_resource_types \<and>
   (''ec2_instance'', ''delete'') \<notin> set dispatch_table \<and>
   new_calls empty_world
     (snd (execute_cleanup_action calm_services False
        (action_of ''ec2_instance'' ''delete'' ''i-1'') empty_world)) =
   [UpdateItem ''2024-01-01-i-1'' ''2024-01-01'' ''failed'' ''2024-01-02T00:00:00'' []] \<and>
   stored (snd (execute_cleanup_action calm_services False
        (action_of ''ec2_instance'' ''delete'' ''i-1'') empty_world))
     (''2024-01-01-i-1'', ''2024-01-01'') ''status'' = Some (AttrS ''failed'') \<and>
   stored (snd (execute_cleanup_action calm_services False
        (action_of ''ec2_instance'' ''delete'' ''i-1'') empty_world))
     (''2024-01-01-i-1'', ''2024-01-01'') ''result_message'' = Some (AttrS []) \<and>
   \<not> skipped (fst (execute_cleanup_action calm_services False
        (action_of ''ec2_instance'' ''delete'' ''i-1'') empty_world))"
proof -
  let ?a = "action_of ''ec2_instance'' ''delete'' ''i-1''"
  obtain r w' where ex: "execute_cleanup_action calm_services False ?a empty_world = (r, w')"
    by (cases "execute_cleanup_action calm_services False ?a empty_world")
  have s: "''ec2_instance'' \<in> set supported_resource_types"
    by (simp add: supported_resource_types_def)
  have n: "(''ec2_instance'', ''delete'') \<notin> set dispatch_table"
    by (simp add: dispatch_table_def)
  have d: "dispatch calm_services False (resource_type ?a) (action_type ?a) (resource_id ?a)
             (initial_result ?a) empty_world = (initial_result ?a, empty_world)"
    by (simp add: sample_fields unmatched_action_type [OF s n])
  have c: "calls empty_world = calls empty_world @ []"
    by simp
  note f = execute_after_dispatch [OF d ex c]
  have sd: "scheduled_date_of (action_id ?a) = ''2024-01-01''"
    using scheduled_date_of_action_of [of "''i-1''"] by (simp add: sample_fields)
  have sw: "status_write calm_services (action_id ?a) (initial_result ?a) empty_world =
      UpdateItem ''2024-01-01-i-1'' ''2024-01-01'' ''failed'' ''2024-01-02T00:00:00'' []"
    using sd
    by (simp add: status_write_def status_of_initial sample_fields calm_fields
        empty_world_fields clock_at_def initial_result_fields)
  from f(1) sw have 1: "new_calls empty_world w' =
      [UpdateItem ''2024-01-01-i-1'' ''2024-01-01'' ''failed'' ''2024-01-02T00:00:00'' []]"
    by simp
  from f(6) sd have 2: "stored w' (''2024-01-01-i-1'', ''2024-01-01'') ''status'' =
      Some (AttrS ''failed'')"
    and 3: "stored w' (''2024-01-01-i-1'', ''2024-01-01'') ''result_message'' = Some (AttrS [])"
    by (simp_all add: calm_fields status_of_initial sample_fields initial_result_fields)
  from f(3) have 4: "\<not> skipped r"
    by (simp add: initial_result_fields)
  from s n 1 2 3 4 ex show ?thesis
    by simp
qed

section \<open>Action queue: updating a status twice\<close>

lemma update_action_status_None:
  assumes "update_action_status sv aid r w = (None, w1)"
  shows "fails sv (calls w) (status_write sv aid r w) = None"
    and "w1 = snd (update_action_status sv aid r w)"
  using assms update_action_status_fst [of sv aid r w] by simp_all

lemma stored_other_field:
  assumes "fails sv (calls w) (status_write sv aid r w) = None"
    and "f \<noteq> ''status''" and "f \<noteq> ''executed_at''" and "f \<noteq> ''result_message''"
  shows "stored (snd (update_action_status sv aid r w)) (aid, scheduled_date_of aid) f =
           (case actions_table w (aid, scheduled_date_of aid) of
              None \<Rightarrow> [''action_id'' \<mapsto> AttrS aid,
                        ''scheduled_date'' \<mapsto> AttrS (scheduled_date_of aid)] f
            | Some it \<Rightarrow> it f)"
  using assms
  by (simp add: stored_eq update_action_status_table update_item_def Let_def
      split: option.split)

lemma table_other_key:
  assumes "k \<noteq> (aid, scheduled_date_of aid)"
  shows "actions_table (snd (update_action_status sv aid r w)) k = actions_table w k"
  using assms by (simp add: update_action_status_table update_item_def Let_def)

lemma table_present_after_update:
  assumes "fails sv (calls w) (status_write sv aid r w) = None"
  shows "actions_table (snd (update_action_status sv aid r w)) (aid, scheduled_date_of aid) \<noteq> None"
  using assms by (simp add: update_action_status_table update_item_def Let_def)

lemma update_item_twice:
  "update_item (update_item tbl k st ex msg) k st ex msg = update_item tbl k st ex msg"
  by (simp add: update_item_def Let_def)

text \<open>
  C6, as amended. Two calls of \<^verbatim>\<open>update_action_status\<close> for the same action id with the
  same result, both writes succeeding: status and result\_message are the same after the
  first call and after the second, and so is every attribute of the item but
  executed\_at; executed\_at holds the clock reading of the latest call; the items under
  other keys are the same; and when both calls read the same time the whole table is the
  same.
\<close>

theorem repeated_update_keeps_status_and_message:
  assumes u1: "update_action_status sv aid r w = (None, w1)"
    and u2: "update_action_status sv aid r w1 = (None, w2)"
  shows "stored w1 (aid, scheduled_date_of aid) ''status'' = Some (AttrS (status_of r)) \<and>
         stored w2 (aid, scheduled_date_of aid) ''status'' = Some (AttrS (status_of r)) \<and>
         stored w1 (aid, scheduled_date_of aid) ''result_message'' = Some (AttrS (message r)) \<and>
         stored w2 (aid, scheduled_date_of aid) ''result_message'' = Some (AttrS (message r)) \<and>
         stored w1 (aid, scheduled_date_of aid) ''executed_at'' =
           Some (AttrS (clock sv (clock_reads w))) \<and>
         stored w2 (aid, scheduled_date_of aid) ''executed_at'' =
           Some (AttrS (clock sv (Suc (clock_reads w)))) \<and>
         (\<forall>f. f \<noteq> ''executed_at'' \<longrightarrow>
            stored w2 (aid, scheduled_date_of aid) f = stored w1 (aid, scheduled_date_of aid) f) \<and>
         (\<forall>k. k \<noteq> (aid, scheduled_date_of aid) \<longrightarrow> actions_table w2 k = actions_table w1 k) \<and>
         (clock sv (Suc (clock_reads w)) = clock sv (clock_reads w) \<longrightarrow>
            actions_table w2 = actions_table w1)"
proof -
  let ?k = "(aid, scheduled_date_of aid)"
  note a1 = update_action_status_None [OF u1] and a2 = update_action_status_None [OF u2]
  have n1: "clock_reads w1 = Suc (clock_reads w)"
    by (simp add: a1(2) update_action_status_clock)
  have s1: "stored w1 ?k ''status'' = Some (AttrS (status_of r))"
    and m1: "stored w1 ?k ''result_message'' = Some (AttrS (message r))"
    and e1: "stored w1 ?k ''executed_at'' = Some (AttrS (clock sv (clock_reads w)))"
    using stored_written [OF a1(1)] by (simp_all add: a1(2))
  have s2: "stored w2 ?k ''status'' = Some (AttrS (status_of r))"
    and m2: "stored w2 ?k ''result_message'' = Some (AttrS (message r))"
    and e2: "stored w2 ?k ''executed_at'' = Some (AttrS (clock sv (Suc (clock_reads w))))"
    using stored_written [OF a2(1)] by (simp_all add: a2(2) n1)
  have o: "stored w2 ?k f = stored w1 ?k f" if "f \<noteq> ''executed_at''" for f
  proof (cases "f = ''status'' \<or> f = ''result_message''")
    case True
    with s1 s2 m1 m2 show ?thesis by auto
  next
    case False
    with that have "stored w2 ?k f =
        (case actions_table w1 ?k of
           None \<Rightarrow> [''action_id'' \<mapsto> AttrS aid,
                     ''scheduled_date'' \<mapsto> AttrS (scheduled_date_of aid)] f
         | Some it \<Rightarrow> it f)"
      using stored_other_field [OF a2(1), of f] by (simp add: a2(2))
    moreover have "actions_table w1 ?k \<noteq> None"
      using table_present_after_update [OF a1(1)] by (simp add: a1(2))
    ultimately show ?thesis
      by (auto simp: stored_eq)
  qed
  have k: "actions_table w2 k = actions_table w1 k" if "k \<noteq> ?k" for k
    using table_other_key [OF that, of sv r w1] by (simp add: a2(2))
  have t: "actions_table w2 = actions_table w1"
    if "clock sv (Suc (clock_reads w)) = clock sv (clock_reads w)"
  proof -
    have "actions_table w1 = update_item (actions_table w) ?k (status_of r)
            (clock sv (clock_reads w)) (message r)"
      using a1(1) by (simp add: a1(2) update_action_status_table)
    moreover have "actions_table w2 = update_item (actions_table w1) ?k (status_of r)
            (clock sv (clock_reads w)) (message r)"
      using a2(1) that by (simp add: a2(2) update_action_status_table n1)
    ultimately show ?thesis
      by (simp add: update_item_twice)
  qed
  from s1 s2 m1 m2 e1 e2 o k t show ?thesis
    by (intro conjI allI impI)
qed

lemma calm_update_succeeds:
  "update_action_status calm_services aid r w =
     (None, snd (update_action_status calm_services aid r w))"
  using update_action_status_fst [of calm_services aid r w]
  by (cases "update_action_status calm_services aid r w") (simp add: calm_fields)

lemma stopped_result_fields:
  "status_of stopped_result = ''completed''"
  "message stopped_result = ''Successfully stopped instance i-1''"
  by (simp_all add: stopped_result_def status_of_success)

text \<open>
  C6, as stated, fails: the clock is read at each call, so on services whose clock reads
  a later second at the second call the triple of status, executed\_at and
  result\_message stored after the first call differs from the one after the second.
\<close>

theorem repeated_update_changes_executed_at:
  "(stored (snd (update_action_status calm_services ''2024-01-01-i-1'' stopped_result empty_world))
      (''2024-01-01-i-1'', ''2024-01-01'') ''status'',
    stored (snd (update_action_status calm_services ''2024-01-01-i-1'' stopped_result empty_world))
      (''2024-01-01-i-1'', ''2024-01-01'') ''executed_at'',
    stored (snd (update_action_status calm_services ''2024-01-01-i-1'' stopped_result empty_world))
      (''2024-01-01-i-1'', ''2024-01-01'') ''result_message'') \<noteq>
   (stored (snd (update_action_status calm_services ''2024-01-01-i-1'' stopped_result
        (snd (update_action_status calm_services ''2024-01-01-i-1'' stopped_result empty_world))))
      (''2024-01-01-i-1'', ''2024-01-01'') ''status'',
    stored (snd (update_action_status calm_services ''2024-01-01-i-1'' stopped_result
        (snd (update_action_status calm_services ''2024-01-01-i-1'' stopped_result empty_world))))
      (''2024-01-01-i-1'', ''2024-01-01'') ''executed_at'',
    stored (snd (update_action_status calm_services ''2024-01-01-i-1'' stopped_result
        (snd (update_action_status calm_services ''2024-01-01-i-1'' stopped_result empty_world))))
      (''2024-01-01-i-1'', ''2024-01-01'') ''result_message'')"
proof -
  let ?aid = "''2024-01-01-i-1''"
  let ?w1 = "snd (update_action_status calm_services ?aid stopped_result empty_world)"
  let ?w2 = "snd (update_action_status calm_services ?aid stopped_result ?w1)"
  have sd: "scheduled_date_of ?aid = ''2024-01-01''"
    by (rule scheduled_date_of_sample)
  have "stored ?w1 (?aid, scheduled_date_of ?aid) ''executed_at'' =
          Some (AttrS (clock calm_services (clock_reads empty_world)))"
    by (rule stored_written(3)) (simp add: calm_fields)
  then have e1: "stored ?w1 (?aid, ''2024-01-01'') ''executed_at'' =
      Some (AttrS ''2024-01-02T00:00:00'')"
    by (simp add: sd calm_fields empty_world_fields clock_at_def)
  have "stored ?w2 (?aid, scheduled_date_of ?aid) ''executed_at'' =
          Some (AttrS (clock calm_services (clock_reads ?w1)))"
    by (rule stored_written(3)) (simp add: calm_fields)
  then have e2: "stored ?w2 (?aid, ''2024-01-01'') ''executed_at'' =
      Some (AttrS ''2024-01-02T00:00:01'')"
    by (simp add: sd calm_fields empty_world_fields clock_at_def update_action_status_clock)
  from e1 e2 show ?thesis
    by simp
qed

theorem repeated_update_keeps_status_and_message_witness:
  "stored (snd (update_action_status calm_services ''2024-01-01-i-1'' stopped_result
        (snd (update_action_status calm_services ''2024-01-01-i-1'' stopped_result empty_world))))
      (''2024-01-01-i-1'', ''2024-01-01'') ''status'' = Some (AttrS ''completed'') \<and>
   stored (snd (update_action_status calm_services ''2024-01-01-i-1'' stopped_result empty_world))
      (''2024-01-01-i-1'', ''2024-01-01'') ''status'' = Some (AttrS ''completed'') \<and>
   stored (snd (update_action_status calm_services ''2024-01-01-i-1'' stopped_result
        (snd (update_action_status calm_services ''2024-01-01-i-1'' stopped_result empty_world))))
      (''2024-01-01-i-1'', ''2024-01-01'') ''result_message'' =
     Some (AttrS ''Successfully stopped instance i-1'') \<and>
   stored (snd (update_action_status calm_services ''2024-01-01-i-1'' stopped_result
        (snd (update_action_status calm_services ''2024-01-01-i-1'' stopped_result empty_world))))
      (''2024-01-01-i-1'', ''2024-01-01'') ''executed_at'' = Some (AttrS ''2024-01-02T00:00:01'')"
proof -
  let ?aid = "''2024-01-01-i-1''"
  let ?w1 = "snd (update_action_status calm_services ?aid stopped_result empty_world)"
  let ?w2 = "snd (update_action_status calm_services ?aid stopped_result ?w1)"
  have u1: "update_action_status calm_services ?aid stopped_result empty_world = (None, ?w1)"
    by (rule calm_update_succeeds)
  have u2: "update_action_status calm_services ?aid stopped_result ?w1 = (None, ?w2)"
    by (rule calm_update_succeeds)
  note th = repeated_update_keeps_status_and_message [OF u1 u2]
  from th [THEN conjunct1]
  have 1: "stored ?w1 (?aid, ''2024-01-01'') ''status'' = Some (AttrS ''completed'')"
    by (simp add: scheduled_date_of_sample stopped_result_fields)
  from th [THEN conjunct2, THEN conjunct1]
  have 2: "stored ?w2 (?aid, ''2024-01-01'') ''status'' = Some (AttrS ''completed'')"
    by (simp add: scheduled_date_of_sample stopped_result_fields)
  from th [THEN conjunct2, THEN conjunct2, THEN conjunct2, THEN conjunct1]
  have 3: "stored ?w2 (?aid, ''2024-01-01'') ''result_message'' =
      Some (AttrS ''Successfully stopped instance i-1'')"
    by (simp add: scheduled_date_of_sample stopped_result_fields)
  from th [THEN conjunct2, THEN conjunct2, THEN conjunct2, THEN conjunct2, THEN conjunct2,
      THEN conjunct1]
  have 4: "stored ?w2 (?aid, ''2024-01-01'') ''executed_at'' =
      Some (AttrS ''2024-01-02T00:00:01'')"
    by (simp add: scheduled_date_of_sample calm_fields empty_world_fields clock_at_def)
  from 1 2 3 4 show ?thesis
    by simp
qed

section \<open>Tag enforcer: missing and invalid tags\<close>

lemma check_rules_missing:
  "fst (check_rules m tags rs missing invalid) =
     missing @ map key (filter (\<lambda>r. tags (key r) = None) rs)"
  by (induction rs arbitrary: missing invalid) (auto simp: Let_def split: option.split)

lemma check_rules_invalid_mono:
  "set invalid \<subseteq> set (snd (check_rules m tags rs missing invalid))"
proof (induction rs arbitrary: missing invalid)
  case Nil
  show ?case by simp
next
  case (Cons r rs)
  show ?case
  proof (cases "tags (key r)")
    case None
    then show ?thesis using Cons.IH [of invalid "missing @ [key r]"] by simp
  next
    case (Some v)
    let ?i1 = "if tag_values r \<noteq> [] \<and> v \<notin> set (tag_values r)
               then invalid @ [NotAllowed (key r) v (tag_values r)] else invalid"
    let ?i2 = "case pattern r of None \<Rightarrow> ?i1
               | Some p \<Rightarrow> if \<not> m p v then ?i1 @ [NoMatch (key r) v p] else ?i1"
    have "set invalid \<subseteq> set ?i2"
      by (auto split: option.split)
    also have "\<dots> \<subseteq> set (snd (check_rules m tags rs missing ?i2))"
      by (rule Cons.IH)
    finally show ?thesis
      using Some by (simp add: Let_def)
  qed
qed

lemma check_rules_not_allowed:
  assumes "r \<in> set rs" and "tags (key r) = Some v" and "tag_values r \<noteq> []"
    and "v \<notin> set (tag_values r)"
  shows "NotAllowed (key r) v (tag_values r) \<in> set (snd (check_rules m tags rs missing invalid))"
  using assms
proof (induction rs arbitrary: missing invalid)
  case Nil
  then show ?case by simp
next
  case (Cons q rs)
  show ?case
  proof (cases "q = r")
    case True
    let ?i1 = "invalid @ [NotAllowed (key r) v (tag_values r)]"
    let ?i2 = "case pattern r of None \<Rightarrow> ?i1
               | Some p \<Rightarrow> if \<not> m p v then ?i1 @ [NoMatch (key r) v p] else ?i1"
    have "NotAllowed (key r) v (tag_values r) \<in> set ?i2"
      by (auto split: option.split)
    moreover have "set ?i2 \<subseteq> set (snd (check_rules m tags rs missing ?i2))"
      by (rule check_rules_invalid_mono)
    ultimately have "NotAllowed (key r) v (tag_values r) \<in>
        set (snd (check_rules m tags rs missing ?i2))"
      by blast
    with True Cons.prems show ?thesis
      by (simp add: Let_def)
  next
    case False
    with Cons.prems have "r \<in> set rs" by simp
    note ih = Cons.IH [OF this Cons.prems(2-4)]
    show ?thesis
    proof (cases "tags (key q)")
      case None
      then show ?thesis using ih [of "missing @ [key q]" invalid] by simp
    next
      case (Some u)
      then show ?thesis using ih by (simp add: Let_def)
    qed
  qed
qed

lemma compliance_fields:
  "missing_tags (check_resource_compliance m tags rules) = fst (check_rules m tags rules [] [])"
  "invalid_tags (check_resource_compliance m tags rules) = snd (check_rules m tags rules [] [])"
  "compliant (check_resource_compliance m tags rules) =
     (fst (check_rules m tags rules [] []) = [] \<and> snd (check_rules m tags rules [] []) = [])"
  by (simp_all add: check_resource_compliance_def split: prod.split)

text \<open>
  C8. For every tag mapping and list of rules: a rule whose key is absent from the tags
  puts the key into \<^verbatim>\<open>missing_tags\<close>, and the result is not compliant; a rule whose key
  is present with a value outside its non-empty allowed values puts an entry of that key,
  value and allowed values into \<^verbatim>\<open>invalid_tags\<close>, the key is not in \<^verbatim>\<open>missing_tags\<close>, and
  the result is not compliant; with no rule every tag mapping is compliant.
\<close>

theorem compliance_missing_and_invalid:
  "(\<forall>r \<in> set rules. tags (key r) = None \<longrightarrow>
      key r \<in> set (missing_tags (check_resource_compliance m tags rules)) \<and>
      \<not> compliant (check_resource_compliance m tags rules)) \<and>
   (\<forall>r \<in> set rules. \<forall>v.
      tags (key r) = Some v \<and> tag_values r \<noteq> [] \<and> v \<notin> set (tag_values r) \<longrightarrow>
      NotAllowed (key r) v (tag_values r) \<in>
        set (invalid_tags (check_resource_compliance m tags rules)) \<and>
      key r \<notin> set (missing_tags (check_resource_compliance m tags rules)) \<and>
      \<not> compliant (check_resource_compliance m tags rules)) \<and>
   compliant (check_resource_compliance m tags [])"
proof (intro conjI ballI allI impI)
  fix r
  assume r: "r \<in> set rules" and n: "tags (key r) = None"
  then show m: "key r \<in> set (missing_tags (check_resource_compliance m tags rules))"
    by (auto simp: compliance_fields check_rules_missing)
  then have "fst (check_rules m tags rules [] []) \<noteq> []"
    by (auto simp: compliance_fields(1))
  then show "\<not> compliant (check_resource_compliance m tags rules)"
    by (simp add: compliance_fields(3))
next
  fix r v
  assume r: "r \<in> set rules"
    and h: "tags (key r) = Some v \<and> tag_values r \<noteq> [] \<and> v \<notin> set (tag_values r)"
  from check_rules_not_allowed [OF r, of tags v m "[]" "[]"] h
  show i: "NotAllowed (key r) v (tag_values r) \<in>
        set (invalid_tags (check_resource_compliance m tags rules))"
    by (simp add: compliance_fields(2))
  from h show "key r \<notin> set (missing_tags (check_resource_compliance m tags rules))"
    by (auto simp: compliance_fields(1) check_rules_missing)
  from i have "snd (check_rules m tags rules [] []) \<noteq> []"
    by (auto simp: compliance_fields(2))
  then show "\<not> compliant (check_resource_compliance m tags rules)"
    by (simp add: compliance_fields(3))
next
  show "compliant (check_resource_compliance m tags [])"
    by (simp add: compliance_fields(3))
qed

theorem compliance_missing_and_invalid_witness:
  "''CostCenter'' \<in>
     set (missing_tags (check_resource_compliance literal_match sample_tags default_required_tags)) \<and>
   NotAllowed ''Environment'' ''Testing'' [''Production'', ''Staging'', ''Development''] \<in>
     set (invalid_tags (check_resource_compliance literal_match sample_tags default_required_tags)) \<and>
   ''Environment'' \<notin>
     set (missing_tags (check_resource_compliance literal_match sample_tags default_required_tags)) \<and>
   \<not> compliant (check_resource_compliance literal_match sample_tags default_required_tags) \<and>
   compliant (check_resource_compliance literal_match sample_tags [])"
proof -
  let ?env = "\<lparr>key = ''Environment'', tag_values = [''Production'', ''Staging'', ''Development''],
        pattern = None :: string option\<rparr>"
  let ?cc = "\<lparr>key = ''CostCenter'', tag_values = [], pattern = None :: string option\<rparr>"
  note th = compliance_missing_and_invalid [of default_required_tags sample_tags literal_match]
  have e: "?env \<in> set default_required_tags" and c: "?cc \<in> set default_required_tags"
    by (simp_all add: default_required_tags_def)
  have tc: "sample_tags (key ?cc) = None"
    by (simp add: sample_tags_def)
  have te: "sample_tags (key ?env) = Some ''Testing'' \<and> tag_values ?env \<noteq> [] \<and>
            ''Testing'' \<notin> set (tag_values ?env)"
    by (simp add: sample_tags_def)
  from th [THEN conjunct1, THEN bspec, OF c] tc
  have 1: "''CostCenter'' \<in>
     set (missing_tags (check_resource_compliance literal_match sample_tags default_required_tags))"
    and 4: "\<not> compliant (check_resource_compliance literal_match sample_tags default_required_tags)"
    by simp_all
  from th [THEN conjunct2, THEN conjunct1, THEN bspec, OF e, THEN spec, of "''Testing''"] te
  have 2: "NotAllowed ''Environment'' ''Testing'' [''Production'', ''Staging'', ''Development''] \<in>
     set (invalid_tags (check_resource_compliance literal_match sample_tags default_required_tags))"
    and 3: "''Environment'' \<notin>
     set (missing_tags (check_resource_compliance literal_match sample_tags default_required_tags))"
    by simp_all
  have 5: "compliant (check_resource_compliance literal_match sample_tags [])"
    by (rule th [THEN conjunct2, THEN conjunct2])
  from 1 2 3 4 5 show ?thesis
    by simp
qed

section \<open>Report generator: the savings of the idle-resources summary\<close>

lemma py_round2_zero: "py_round2 0 = 0"
  by (simp add: py_round2_def round_half_even_def)

lemma summarise_item_same:
  assumes "same_read_fields a b"
  shows "summarise_item a d = summarise_item b d"
proof -
  from assms have 1: "map_of a ''resource_type'' = map_of b ''resource_type''"
    and 2: "map_of a ''resource_id'' = map_of b ''resource_id''"
    and 3: "map_of a ''metadata'' = map_of b ''metadata''"
    by (simp_all add: same_read_fields_def)
  show ?thesis
    unfolding summarise_item_def 1 2 3 by (rule refl)
qed

lemma summarise_items_same:
  "list_all2 same_read_fields xs ys \<Longrightarrow> summarise_items xs d = summarise_items ys d"
proof (induction xs ys arbitrary: d rule: list_all2_induct)
  case Nil
  show ?case by simp
next
  case (Cons x xs y ys)
  then show ?case
    by (simp add: summarise_item_same split: sum.split)
qed

text \<open>
  C9. Whatever the scan of the idle-resources table gives, an exception or any list of
  items, the summary has \<^verbatim>\<open>total_savings = 0\<close>. The loop reads only \<^verbatim>\<open>resource_type\<close>,
  \<^verbatim>\<open>resource_id\<close> and \<^verbatim>\<open>metadata\<close> of an item: two lists of items that agree on these,
  whatever cost attributes they hold, give the same summary.
\<close>

theorem idle_summary_total_savings_zero:
  "total_savings (generate_idle_resources_summary scan_response) = 0 \<and>
   (list_all2 same_read_fields items items' \<longrightarrow>
      generate_idle_resources_summary (Inr items) = generate_idle_resources_summary (Inr items'))"
proof
  show "total_savings (generate_idle_resources_summary scan_response) = 0"
    by (simp add: generate_idle_resources_summary_def py_round2_zero split: sum.split)
  show "list_all2 same_read_fields items items' \<longrightarrow>
      generate_idle_resources_summary (Inr items) = generate_idle_resources_summary (Inr items')"
    by (simp add: generate_idle_resources_summary_def summarise_items_same)
qed

lemma costly_summary:
  "generate_idle_resources_summary (Inr [costly_item ''vol-1'' c]) =
     \<lparr>total_idle_resources = 1,
      by_type = [(AttrS ''ebs_volume'', 1, [(AttrS ''vol-1'', AttrM [(''size_gb'', AttrN 100)])])],
      total_savings = 0\<rparr>"
  by (simp add: generate_idle_resources_summary_def summarise_item_def costly_item_def
      py_round2_zero)

theorem idle_summary_total_savings_zero_witness:
  "total_savings (generate_idle_resources_summary (Inr [costly_item ''vol-1'' 8])) = 0 \<and>
   total_idle_resources (generate_idle_resources_summary (Inr [costly_item ''vol-1'' 8])) = 1 \<and>
   generate_idle_resources_summary (Inr [costly_item ''vol-1'' 8]) =
     generate_idle_resources_summary (Inr [costly_item ''vol-1'' 0])"
proof -
  have s: "list_all2 same_read_fields [costly_item ''vol-1'' 8] [costly_item ''vol-1'' 0]"
    by (simp add: same_read_fields_def costly_item_def)
  note th = idle_summary_total_savings_zero
    [of "Inr [costly_item ''vol-1'' 8]" "[costly_item ''vol-1'' 8]" "[costly_item ''vol-1'' 0]"]
  from th [THEN conjunct1]
  have 1: "total_savings (generate_idle_resources_summary (Inr [costly_item ''vol-1'' 8])) = 0" .
  from th [THEN conjunct2] s
  have 3: "generate_idle_resources_summary (Inr [costly_item ''vol-1'' 8]) =
     generate_idle_resources_summary (Inr [costly_item ''vol-1'' 0])"
    by simp
  have 2: "total_idle_resources (generate_idle_resources_summary (Inr [costly_item ''vol-1'' 8])) = 1"
    by (simp add: costly_summary)
  from 1 2 3 show ?thesis
    by simp
qed

section \<open>Resource scanner: missing or errored metrics\<close>

lemma get_cpu_utilization_missing:
  "cpu_statistics mon i = Inl e \<or> cpu_statistics mon i = Inr [] \<Longrightarrow>
     get_cpu_utilization mon i = 0"
  by (auto simp: get_cpu_utilization_def)

lemma get_rds_connections_missing:
  "connection_statistics mon d = Inl e \<or> connection_statistics mon d = Inr [] \<Longrightarrow>
     get_rds_connections mon d = 0"
  by (auto simp: get_rds_connections_def)

lemma scan_instances_prefix: "prefix idle (fst (scan_instances mon is idle table))"
proof (induction "is" arbitrary: idle table)
  case Nil
  show ?case by simp
next
  case (Cons i "is")
  have step: "prefix idle (fst (scan_instances mon is (idle @ [f]) t))" for f t
    using Cons.IH [of "idle @ [f]" t] by (rule append_prefixD)
  show ?case
    using Cons.IH [of idle table] step
    by (auto simp: Let_def split: sum.split)
qed

lemma scan_databases_prefix: "prefix idle (fst (scan_databases mon ds idle table))"
proof (induction ds arbitrary: idle table)
  case Nil
  show ?case by simp
next
  case (Cons d ds)
  have step: "prefix idle (fst (scan_databases mon ds (idle @ [f]) t))" for f t
    using Cons.IH [of "idle @ [f]" t] by (rule append_prefixD)
  show ?case
    using Cons.IH [of idle table] step
    by (auto simp: Let_def split: sum.split)
qed

lemma scan_instances_head:
  assumes "get_cpu_utilization mon (InstanceId i) = 0" and "\<not> skipped_by_tags (tags_of i)"
  shows "prefix (idle @ [ec2_finding i 0]) (fst (scan_instances mon (i # rest) idle table))"
  using assms scan_instances_prefix [of "idle @ [ec2_finding i 0]" mon rest]
  by (simp add: Let_def split: sum.split)

lemma scan_databases_head:
  assumes "get_rds_connections mon (DBInstanceIdentifier db) = 0"
  shows "prefix (idle @ [rds_finding db 0]) (fst (scan_databases mon (db # rest) idle table))"
  using assms scan_databases_prefix [of "idle @ [rds_finding db 0]" mon rest]
  by (simp add: Let_def split: sum.split)

lemma save_idle_resource_succeeds:
  "\<forall>item. put_item_raises mon item = None \<Longrightarrow>
     \<exists>t. save_idle_resource mon rid rtype md table = Inr t"
  by (simp add: save_idle_resource_def Let_def)

lemma scan_instances_member:
  assumes puts: "\<forall>item. put_item_raises mon item = None"
    and cpu: "get_cpu_utilization mon (InstanceId i) = 0"
    and tg: "\<not> skipped_by_tags (tags_of i)"
    and mem: "i \<in> set is"
  shows "ec2_finding i 0 \<in> set (fst (scan_instances mon is idle table))"
  using mem
proof (induction "is" arbitrary: idle table)
  case Nil
  then show ?case by simp
next
  case (Cons j "is")
  show ?case
  proof (cases "j = i")
    case True
    from scan_instances_head [OF cpu tg, of idle "is" table]
    have "set (idle @ [ec2_finding i 0]) \<subseteq> set (fst (scan_instances mon (i # is) idle table))"
      by (rule set_mono_prefix)
    with True show ?thesis by simp
  next
    case False
    with Cons.prems have m: "i \<in> set is" by simp
    obtain t where t: "save_idle_resource mon (InstanceId j) ''ec2_instance''
        [(''cpu_average'', AttrN (get_cpu_utilization mon (InstanceId j))),
         (''instance_type'', AttrS (InstanceType j))] table = Inr t"
      using save_idle_resource_succeeds [OF puts] by blast
    show ?thesis
      using Cons.IH [OF m, of idle table]
        Cons.IH [OF m, of "idle @ [ec2_finding j (get_cpu_utilization mon (InstanceId j))]" t] t
      by (simp add: Let_def)
  qed
qed

lemma scan_databases_member:
  assumes puts: "\<forall>item. put_item_raises mon item = None"
    and con: "get_rds_connections mon (DBInstanceIdentifier db) = 0"
    and mem: "db \<in> set ds"
  shows "rds_finding db 0 \<in> set (fst (scan_databases mon ds idle table))"
  using mem
proof (induction ds arbitrary: idle table)
  case Nil
  then show ?case by simp
next
  case (Cons d ds)
  show ?case
  proof (cases "d = db")
    case True
    from scan_databases_head [OF con, of idle ds table]
    have "set (idle @ [rds_finding db 0]) \<subseteq> set (fst (scan_databases mon (db # ds) idle table))"
      by (rule set_mono_prefix)
    with True show ?thesis by simp
  next
    case False
    with Cons.prems have m: "db \<in> set ds" by simp
    obtain t where t: "save_idle_resource mon (DBInstanceIdentifier d) ''rds_instance''
        [(''connections_average'', AttrN (get_rds_connections mon (DBInstanceIdentifier d))),
         (''instance_class'', AttrS (DBInstanceClass d))] table = Inr t"
      using save_idle_resource_succeeds [OF puts] by blast
    show ?thesis
      using Cons.IH [OF m, of idle table]
        Cons.IH [OF m, of "idle @ [rds_finding d (get_rds_connections mon (DBInstanceIdentifier d))]" t] t
      by (simp add: Let_def)
  qed
qed

text \<open>
  C7. An instance or a database whose utilization query raises or returns no datapoints
  has the seven-day average 0. In the loop such an instance, when its tags do not skip
  it, and such a database are appended to the findings with that average, since 0 is
  below 5 percent and below 1 connection; and when no write to the table raises, every
  such instance and database of the describe response is among the findings of the scan.
\<close>

theorem missing_metrics_count_as_idle:
  assumes cpu: "cpu_statistics mon (InstanceId i) = Inl e \<or>
                cpu_statistics mon (InstanceId i) = Inr []"
    and con: "connection_statistics mon (DBInstanceIdentifier db) = Inl e' \<or>
              connection_statistics mon (DBInstanceIdentifier db) = Inr []"
    and tg: "\<not> skipped_by_tags (tags_of i)"
  shows "get_cpu_utilization mon (InstanceId i) = 0 \<and>
         get_rds_connections mon (DBInstanceIdentifier db) = 0 \<and>
         prefix (idle @ [ec2_finding i 0]) (fst (scan_instances mon (i # rest) idle table)) \<and>
         prefix (idle_rds @ [rds_finding db 0])
           (fst (scan_databases mon (db # dbs) idle_rds table)) \<and>
         ((\<forall>item. put_item_raises mon item = None) \<longrightarrow>
            (i \<in> set (concat reservations) \<longrightarrow>
               ec2_finding i 0 \<in>
                 set (fst (scan_idle_ec2_instances mon (Inr reservations) table))) \<and>
            (db \<in> set db_instances \<longrightarrow>
               rds_finding db 0 \<in>
                 set (fst (scan_idle_rds_instances mon (Inr db_instances) table))))"
proof -
  have c0: "get_cpu_utilization mon (InstanceId i) = 0"
    using cpu by (rule get_cpu_utilization_missing)
  have r0: "get_rds_connections mon (DBInstanceIdentifier db) = 0"
    using con by (rule get_rds_connections_missing)
  have h1: "prefix (idle @ [ec2_finding i 0]) (fst (scan_instances mon (i # rest) idle table))"
    using c0 tg by (rule scan_instances_head)
  have h2: "prefix (idle_rds @ [rds_finding db 0])
           (fst (scan_databases mon (db # dbs) idle_rds table))"
    using r0 by (rule scan_databases_head)
  have m1: "ec2_finding i 0 \<in> set (fst (scan_idle_ec2_instances mon (Inr reservations) table))"
    if "\<forall>item. put_item_raises mon item = None" and "i \<in> set (concat reservations)"
    using scan_instances_member [OF that(1) c0 tg that(2), of "[]" table]
    by (simp add: scan_idle_ec2_instances_def)
  have m2: "rds_finding db 0 \<in> set (fst (scan_idle_rds_instances mon (Inr db_instances) table))"
    if "\<forall>item. put_item_raises mon item = None" and "db \<in> set db_instances"
    using scan_databases_member [OF that(1) r0 that(2), of "[]" table]
    by (simp add: scan_idle_rds_instances_def)
  from c0 r0 h1 h2 m1 m2 show ?thesis
    by (intro conjI impI)
qed

lemma silent_fields:
  "cpu_statistics silent_monitoring x = Inl (ServiceError ''Throttling'')"
  "connection_statistics silent_monitoring x = Inr []"
  "put_item_raises silent_monitoring item = None"
  by (simp_all add: silent_monitoring_def)

lemma web_instance_not_skipped: "\<not> skipped_by_tags (tags_of web_instance)"
  by (simp add: skipped_by_tags_def tags_of_def dict_of_def web_instance_def)

theorem missing_metrics_count_as_idle_witness:
  "get_cpu_utilization silent_monitoring ''i-1'' = 0 \<and>
   get_rds_connections silent_monitoring ''orders'' = 0 \<and>
   ec2_finding web_instance 0 \<in>
     set (fst (scan_idle_ec2_instances silent_monitoring (Inr [[web_instance]]) [])) \<and>
   rds_finding orders_db 0 \<in>
     set (fst (scan_idle_rds_instances silent_monitoring (Inr [orders_db]) []))"
proof -
  have cpu: "cpu_statistics silent_monitoring (InstanceId web_instance) =
               Inl (ServiceError ''Throttling'') \<or>
             cpu_statistics silent_monitoring (InstanceId web_instance) = Inr []"
    by (simp add: silent_fields)
  have con: "connection_statistics silent_monitoring (DBInstanceIdentifier orders_db) =
               Inl (ServiceError ''Throttling'') \<or>
             connection_statistics silent_monitoring (DBInstanceIdentifier orders_db) = Inr []"
    by (simp add: silent_fields)
  note th = missing_metrics_count_as_idle [OF cpu con web_instance_not_skipped,
      of "[]" "[]" "[]" "[]" "[]" "[[web_instance]]" "[orders_db]"]
  from th [THEN conjunct1]
  have 1: "get_cpu_utilization silent_monitoring ''i-1'' = 0"
    by (simp add: web_instance_def)
  from th [THEN conjunct2, THEN conjunct1]
  have 2: "get_rds_connections silent_monitoring ''orders'' = 0"
    by (simp add: orders_db_def)
  from th [THEN conjunct2, THEN conjunct2, THEN conjunct2, THEN conjunct2]
  have 3: "ec2_finding web_instance 0 \<in>
     set (fst (scan_idle_ec2_instances silent_monitoring (Inr [[web_instance]]) []))"
    and 4: "rds_finding orders_db 0 \<in>
     set (fst (scan_idle_rds_instances silent_monitoring (Inr [orders_db]) []))"
    by (simp_all add: silent_fields)
  from 1 2 3 4 show ?thesis
    by simp
qed

end
